theory Spec2Isabelle
  imports Main
begin

section \<open>Data model\<close>

text \<open>
  The enumerations and interfaces of \<^verbatim>\<open>types.ts\<close>, as the pages and \<^verbatim>\<open>App.tsx\<close> use
  them. A JavaScript string is a \<^typ>\<open>string\<close>, one character per code unit. A value that
  may be \<^verbatim>\<open>null\<close> or \<^verbatim>\<open>undefined\<close> is an \<^typ>\<open>'a option\<close>.
\<close>

text \<open>Modelled from the spec: the members of the enum \<^verbatim>\<open>UserRole\<close> (declared in types.ts).\<close>

datatype UserRole = ADMIN | MANAGER | SELLER

text \<open>
  Modelled from the spec: the members of the enum \<^verbatim>\<open>AppPermission\<close> (declared in types.ts);
  these are the six members the source files name.
\<close>

datatype AppPermission =
  VIEW_OWN_SALES | CREATE_SALES | VIEW_ALL_SALES | APPROVE_SALES
  | ACCESS_ADMIN_PANEL | VIEW_DASHBOARD

text \<open>Modelled from the spec: the members of the enum \<^verbatim>\<open>SaleStatus\<close> (declared in types.ts).\<close>

datatype SaleStatus = DRAFT | IN_PROGRESS | ANALYZED | FINISHED

record User =
  user_id :: string
  user_name :: string
  user_email :: string
  user_role :: UserRole
  user_confirmed :: bool
  user_createdAt :: string

record StatusHistoryEntry =
  h_status :: SaleStatus
  updatedBy :: string
  updatedAt :: string
  reason :: "string option"

text \<open>The fields of \<^verbatim>\<open>CustomerData\<close> that the handlers read; the others ride along.\<close>

record CustomerData =
  nome :: string
  cpf :: string
  email :: string
  plano :: string
  audio_url :: string
  cep :: string
  rua :: string
  numero :: string
  outros :: "(string \<times> string) list"

text \<open>
  A row of the table \<^verbatim>\<open>sales\<close> and the \<^verbatim>\<open>Sale\<close> object the pages map it to (the
  mapping only renames \<^verbatim>\<open>seller_id\<close> to \<^verbatim>\<open>sellerId\<close> and so on). The field \<^verbatim>\<open>id\<close> is
  \<open>sid\<close> here.
\<close>

record Sale =
  sid :: string
  sellerId :: string
  sellerName :: string
  customerData :: CustomerData
  status :: SaleStatus
  statusHistory :: "StatusHistoryEntry list option"
  createdAt :: string
  returnReason :: "string option"

text \<open>
  Every call of \<^verbatim>\<open>notify\<close> passes one of a few message templates; a constructor stands
  for each template, with the interpolated values as arguments: the warnings of the
  manager's handler (missing permission, missing justification, store error), its success
  message with the first five characters of the id and the new status, the two forms these
  take in the localStorage version, the seller's messages, and the regression alert with
  the sale's id.
\<close>

datatype Message =
  PermissaoInsuficiente
  | JustificativaObrigatoria
  | VendaAtualizada string SaleStatus
  | ErroAtualizarBanco
  | JustificativaRetornoObrigatoria
  | StatusAtualizado string SaleStatus
  | RascunhoExcluido
  | CamposPendentes
  | FichaEnviada
  | ErroEnviarFicha
  | AlertaRegressao string

datatype Severity = info | success | warning

type_synonym Notification = "Message \<times> Severity"

text \<open>What a handler did: which of its return paths it took.\<close>

datatype Outcome =
  Done | PermissionDenied | NotFound | ValidationError | StoreError | Ignored | Thrown

section \<open>Permission registry (App.tsx with the external store, src/unnamed/part\_000)\<close>

type_synonym RolePermissionsMap = "UserRole \<rightharpoonup> AppPermission list"

definition all_permissions :: "AppPermission list" where
  "all_permissions =
     [VIEW_OWN_SALES, CREATE_SALES, VIEW_ALL_SALES, APPROVE_SALES,
      ACCESS_ADMIN_PANEL, VIEW_DASHBOARD]"

definition DEFAULT_PERMISSIONS :: RolePermissionsMap where
  "DEFAULT_PERMISSIONS =
     [ADMIN \<mapsto> all_permissions,
      MANAGER \<mapsto> [VIEW_ALL_SALES, APPROVE_SALES, VIEW_DASHBOARD],
      SELLER \<mapsto> [VIEW_OWN_SALES, CREATE_SALES, VIEW_DASHBOARD]]"

text \<open>A row of the table \<^verbatim>\<open>permissions\<close>: a role and its permission list.\<close>

type_synonym PermsRow = "UserRole \<times> AppPermission list"

text \<open>
  The permission part of \<^verbatim>\<open>initApp\<close>: \<^verbatim>\<open>permsData\<close> is the result of the select
  (\<open>None\<close> when the query failed). A non-empty result is reduced into a map that starts
  empty; otherwise the default map is used.
\<close>

definition initApp_permissions :: "PermsRow list option \<Rightarrow> RolePermissionsMap" where
  "initApp_permissions permsData =
     (case permsData of
        None \<Rightarrow> DEFAULT_PERMISSIONS
      | Some rows \<Rightarrow>
          if length rows > 0
          then foldl (\<lambda>acc curr. acc(fst curr \<mapsto> snd curr)) Map.empty rows
          else DEFAULT_PERMISSIONS)"

text \<open>The upsert of one row into the table \<^verbatim>\<open>permissions\<close>, with conflict on the role.\<close>

definition upsert_permissions :: "PermsRow \<Rightarrow> PermsRow list \<Rightarrow> PermsRow list" where
  "upsert_permissions row tbl =
     (if fst row \<in> fst ` set tbl
      then map (\<lambda>r. if fst r = fst row then row else r) tbl
      else tbl @ [row])"

text \<open>
  \<^verbatim>\<open>updateRolePermissions\<close>: the state gets the current map with one entry replaced, the
  table gets the one row.
\<close>

definition updateRolePermissions ::
  "UserRole \<Rightarrow> AppPermission list \<Rightarrow> RolePermissionsMap \<times> PermsRow list
     \<Rightarrow> RolePermissionsMap \<times> PermsRow list" where
  "updateRolePermissions r newPerms st =
     ((fst st)(r \<mapsto> newPerms), upsert_permissions (r, newPerms) (snd st))"

text \<open>
  The context a page runs in: the authenticated user and the permission map of
  \<^verbatim>\<open>App\<close>, the parsing of a timestamp string (\<^verbatim>\<open>new Date(s).getTime()\<close>, also the order
  the store sorts \<^verbatim>\<open>created_at\<close> by), and the two validators of the package
  \<^verbatim>\<open>cpf-cnpj-validator\<close>.
\<close>

record Env =
  auth_user :: "User option"
  permissions :: RolePermissionsMap
  getTime :: "string \<Rightarrow> int"
  cpfIsValid :: "string \<Rightarrow> bool"
  cnpjIsValid :: "string \<Rightarrow> bool"

definition hasPermission :: "'a Env_scheme \<Rightarrow> AppPermission \<Rightarrow> bool" where
  "hasPermission env permission =
     (case auth_user env of
        None \<Rightarrow> False
      | Some u \<Rightarrow>
          permission \<in> set (case permissions env (user_role u) of
                             None \<Rightarrow> []
                           | Some ps \<Rightarrow> ps))"

section \<open>Strings\<close>

text \<open>The white space that \<^verbatim>\<open>String.prototype.trim\<close> removes, within the Latin-1 range.\<close>

definition isSpace :: "char \<Rightarrow> bool" where
  "isSpace c \<longleftrightarrow>
     c \<in> {CHR 0x09, CHR 0x0A, CHR 0x0B, CHR 0x0C, CHR 0x0D, CHR 0x20, CHR 0xA0}"

definition trim :: "string \<Rightarrow> string" where
  "trim s = rev (dropWhile isSpace (rev (dropWhile isSpace s)))"

text \<open>\<^verbatim>\<open>x || []\<close> on a list that may be null.\<close>

definition orEmpty :: "'a list option \<Rightarrow> 'a list" where
  "orEmpty xs = (case xs of None \<Rightarrow> [] | Some ys \<Rightarrow> ys)"

section \<open>Manager dashboard (pages/ManagerDashboard.tsx)\<close>

text \<open>
  What both dashboards hold: the table \<^verbatim>\<open>sales\<close> of the store, the notifications raised
  so far (oldest first), and the component's \<^verbatim>\<open>sales\<close> and \<^verbatim>\<open>isLoading\<close> state.
\<close>

record View =
  store :: "Sale list"
  notifications :: "Notification list"
  sales :: "Sale list"
  isLoading :: bool

record ManagerState = View +
  selectedSale :: "Sale option"
  returnReasonText :: string

definition notify :: "Message \<Rightarrow> Severity \<Rightarrow> 'a View_scheme \<Rightarrow> 'a View_scheme" where
  "notify m t st = st\<lparr>notifications := notifications st @ [(m, t)]\<rparr>"

text \<open>Rows by \<^verbatim>\<open>created_at\<close>, newest first; rows of equal time keep their order.\<close>

definition newestFirst :: "(string \<Rightarrow> int) \<Rightarrow> Sale list \<Rightarrow> Sale list" where
  "newestFirst gt xs = sort_key (\<lambda>s. - gt (createdAt s)) xs"

text \<open>
  \<^verbatim>\<open>loadAllSales\<close>: the rows whose status is not DRAFT, newest first. \<open>ok\<close> says whether
  the select returned data.
\<close>

definition loadAllSales ::
  "'e Env_scheme \<Rightarrow> bool \<Rightarrow> 'a View_scheme \<Rightarrow> 'a View_scheme" where
  "loadAllSales env ok st =
     (let st1 = (if ok
                 then st\<lparr>sales := newestFirst (getTime env)
                                     (filter (\<lambda>s. status s \<noteq> DRAFT) (store st))\<rparr>
                 else st)
      in st1\<lparr>isLoading := False\<rparr>)"

definition isRegression :: "Sale \<Rightarrow> SaleStatus \<Rightarrow> bool" where
  "isRegression saleToUpdate newStatus \<longleftrightarrow>
     (status saleToUpdate = ANALYZED \<or> status saleToUpdate = FINISHED)
     \<and> newStatus = IN_PROGRESS"

text \<open>\<^verbatim>\<open>!reason || reason.trim().length < 5\<close>\<close>

definition reasonMissing :: "string option \<Rightarrow> bool" where
  "reasonMissing rsn =
     (case rsn of None \<Rightarrow> True | Some r \<Rightarrow> r = [] \<or> length (trim r) < 5)"

text \<open>
  \<^verbatim>\<open>currentUser?.name || 'Sistema'\<close>; the page reads \<^verbatim>\<open>currentUser\<close> from the record
  \<^verbatim>\<open>nexus_auth\<close> that \<^verbatim>\<open>login\<close> writes together with the \<^verbatim>\<open>auth\<close> state.
\<close>

definition actorName :: "'a Env_scheme \<Rightarrow> string" where
  "actorName env =
     (case auth_user env of
        None \<Rightarrow> ''Sistema''
      | Some u \<Rightarrow> if user_name u = [] then ''Sistema'' else user_name u)"

definition newHistoryEntry ::
  "'a Env_scheme \<Rightarrow> string \<Rightarrow> Sale \<Rightarrow> SaleStatus \<Rightarrow> string option \<Rightarrow> StatusHistoryEntry" where
  "newHistoryEntry env now saleToUpdate newStatus rsn =
     \<lparr>h_status = newStatus,
      updatedBy = actorName env,
      updatedAt = now,
      reason = (if isRegression saleToUpdate newStatus then rsn else None)\<rparr>"

text \<open>
  \<^verbatim>\<open>supabase.from('sales').update(updates).eq('id', id)\<close>: the three columns of
  \<^verbatim>\<open>updates\<close> are written into every row with that id.
\<close>

definition update_sales ::
  "string \<Rightarrow> SaleStatus \<Rightarrow> string option \<Rightarrow> StatusHistoryEntry list \<Rightarrow> Sale list \<Rightarrow> Sale list" where
  "update_sales i st rr hist tbl =
     map (\<lambda>r. if sid r = i
              then r\<lparr>status := st, returnReason := rr, statusHistory := Some hist\<rparr>
              else r) tbl"

text \<open>
  \<^verbatim>\<open>handleUpdateStatus(id, newStatus, reason?)\<close>. \<open>now\<close> is the clock, \<open>updateOk\<close> says
  whether the store's update returned no error, \<open>loadOk\<close> whether the reload returned data.
\<close>

definition handleUpdateStatus ::
  "'e Env_scheme \<Rightarrow> string \<Rightarrow> bool \<Rightarrow> bool \<Rightarrow> string \<Rightarrow> SaleStatus \<Rightarrow> string option
     \<Rightarrow> ManagerState \<Rightarrow> Outcome \<times> ManagerState" where
  "handleUpdateStatus env now updateOk loadOk i newStatus rsn st =
     (if \<not> hasPermission env APPROVE_SALES
      then (PermissionDenied, notify PermissaoInsuficiente warning st)
      else
        case find (\<lambda>s. sid s = i) (sales st) of
          None \<Rightarrow> (NotFound, st)
        | Some saleToUpdate \<Rightarrow>
            if isRegression saleToUpdate newStatus \<and> reasonMissing rsn
            then (ValidationError, notify JustificativaObrigatoria warning st)
            else if updateOk
            then
              let st1 = st\<lparr>store :=
                              update_sales i newStatus
                                (if isRegression saleToUpdate newStatus then rsn
                                 else returnReason saleToUpdate)
                                (orEmpty (statusHistory saleToUpdate)
                                   @ [newHistoryEntry env now saleToUpdate newStatus rsn])
                                (store st)\<rparr>;
                  st2 = loadAllSales env loadOk st1;
                  st3 = (if (case selectedSale st2 of None \<Rightarrow> False | Some s \<Rightarrow> sid s = i)
                         then st2\<lparr>selectedSale := None\<rparr> else st2);
                  st4 = st3\<lparr>returnReasonText := []\<rparr>
              in (Done, notify (VendaAtualizada (take 5 i) newStatus) success st4)
            else (StoreError, notify ErroAtualizarBanco warning st))"

section \<open>Seller dashboard (pages/SellerDashboard.tsx)\<close>

record SellerState = View +
  showModal :: bool
  editingSaleId :: "string option"
  formData :: CustomerData
  touched :: "string set"
  viewingReturnReason :: "string option"

definition initialCustomerData :: CustomerData where
  "initialCustomerData =
     \<lparr>nome = [], cpf = [], email = [], plano = [], audio_url = [], cep = [], rua = [],
      numero = [],
      outros = [(''data_nascimento'', []), (''nome_mae'', []), (''contato'', []),
                (''complemento'', []), (''bairro'', []), (''cidade'', []), (''estado'', []),
                (''vencimento_dia'', ''10''), (''anotacoes'', []), (''foto_frente_url'', []),
                (''foto_verso_url'', []), (''foto_ctps_url'', []),
                (''foto_comprovante_residencia_url'', [])]\<rparr>"

text \<open>\<^verbatim>\<open>Object.keys(formData)\<close>\<close>

definition formKeys :: "CustomerData \<Rightarrow> string list" where
  "formKeys fd =
     [''nome'', ''cpf'', ''email'', ''plano'', ''audio_url'', ''cep'', ''rua'', ''numero'']
     @ map fst (outros fd)"

text \<open>\<^verbatim>\<open>isReadOnly\<close>: the sale being edited is FINISHED in the loaded list.\<close>

definition isReadOnly :: "SellerState \<Rightarrow> bool" where
  "isReadOnly st =
     (case editingSaleId st of
        None \<Rightarrow> False
      | Some e \<Rightarrow>
          if e = [] then False
          else (case find (\<lambda>s. sid s = e) (sales st) of
                  None \<Rightarrow> False
                | Some s \<Rightarrow> status s = FINISHED))"

text \<open>\<^verbatim>\<open>loadData\<close>: the user's own rows, newest first.\<close>

definition loadData ::
  "'e Env_scheme \<Rightarrow> User \<Rightarrow> bool \<Rightarrow> 'a View_scheme \<Rightarrow> 'a View_scheme" where
  "loadData env user ok st =
     (let st1 = (if ok
                 then st\<lparr>sales := newestFirst (getTime env)
                                     (filter (\<lambda>s. sellerId s = user_id user) (store st))\<rparr>
                 else st)
      in st1\<lparr>isLoading := False\<rparr>)"

text \<open>
  The object passed to \<^verbatim>\<open>upsert\<close>. \<open>p_id = None\<close> is an id that is \<^verbatim>\<open>null\<close> or
  \<^verbatim>\<open>undefined\<close>; \<open>p_return_reason = None\<close> is a payload without the key
  \<^verbatim>\<open>return_reason\<close>, \<open>Some None\<close> one that has it as \<^verbatim>\<open>null\<close>.
\<close>

record Payload =
  p_id :: "string option"
  p_seller_id :: string
  p_seller_name :: string
  p_customer_data :: CustomerData
  p_status :: SaleStatus
  p_return_reason :: "string option option"
  p_status_history :: "StatusHistoryEntry list"
  p_created_at :: string

definition rowOf :: "Payload \<Rightarrow> string \<Rightarrow> string option \<Rightarrow> Sale" where
  "rowOf p i old_return_reason =
     \<lparr>sid = i,
      sellerId = p_seller_id p,
      sellerName = p_seller_name p,
      customerData = p_customer_data p,
      status = p_status p,
      statusHistory = Some (p_status_history p),
      createdAt = p_created_at p,
      returnReason = (case p_return_reason p of
                        None \<Rightarrow> old_return_reason
                      | Some v \<Rightarrow> v)\<rparr>"

text \<open>
  The store's \<^verbatim>\<open>upsert(payload, {onConflict: 'id'})\<close>; the store is an external service,
  and this is its contract. A payload whose id is in the table overwrites the payload's
  columns in that row and leaves the other columns; any other payload makes a new row,
  under the payload's id or, without one, under the id \<open>freshId\<close> that the store assigns.
  The result is the new table and the rows written. A call that the store rejects is the
  caller's \<open>ok = False\<close>.
\<close>

definition upsert_sales :: "string \<Rightarrow> Payload \<Rightarrow> Sale list \<Rightarrow> Sale list \<times> Sale list" where
  "upsert_sales freshId p tbl =
     (case p_id p of
        None \<Rightarrow> (tbl @ [rowOf p freshId None], [rowOf p freshId None])
      | Some i \<Rightarrow>
          if i \<in> sid ` set tbl
          then (map (\<lambda>r. if sid r = i then rowOf p i (returnReason r) else r) tbl,
                map (\<lambda>r. rowOf p i (returnReason r)) (filter (\<lambda>r. sid r = i) tbl))
          else (tbl @ [rowOf p i None], [rowOf p i None]))"

definition autosavePayload :: "User \<Rightarrow> string \<Rightarrow> SellerState \<Rightarrow> Payload" where
  "autosavePayload user now st =
     \<lparr>p_id = (case editingSaleId st of
                None \<Rightarrow> None
              | Some e \<Rightarrow> if take 4 e = ''TMP_'' then None else Some e),
      p_seller_id = user_id user,
      p_seller_name = user_name user,
      p_customer_data = formData st,
      p_status = DRAFT,
      p_return_reason = None,
      p_status_history =
        [\<lparr>h_status = DRAFT, updatedBy = user_name user, updatedAt = now, reason = None\<rparr>],
      p_created_at = now\<rparr>"

text \<open>
  The autosave effect, 5 seconds after the last change: nothing is scheduled when the
  modal is closed or the sale is read-only; nothing is written when both \<^verbatim>\<open>nome\<close> and
  \<^verbatim>\<open>cpf\<close> are empty. \<open>ok\<close> says whether the upsert returned data.
\<close>

definition autosave ::
  "User \<Rightarrow> string \<Rightarrow> string \<Rightarrow> bool \<Rightarrow> SellerState \<Rightarrow> SellerState" where
  "autosave user now freshId ok st =
     (if \<not> showModal st \<or> isReadOnly st then st
      else if nome (formData st) \<noteq> [] \<or> cpf (formData st) \<noteq> []
      then
        (if ok
         then
           let res = upsert_sales freshId (autosavePayload user now st) (store st);
               st1 = st\<lparr>store := fst res\<rparr>
           in (if snd res \<noteq> [] \<and> (editingSaleId st = None \<or> editingSaleId st = Some [])
               then st1\<lparr>editingSaleId := Some (sid (hd (snd res)))\<rparr>
               else st1)
         else st)
      else st)"

definition isDigit :: "char \<Rightarrow> bool" where
  "isDigit c \<longleftrightarrow> c \<in> set ''0123456789''"

text \<open>The test of \<^verbatim>\<open>/^[^\s@]+@[^\s@]+\.[^\s@]+$/\<close>.\<close>

definition emailFormat :: "string \<Rightarrow> bool" where
  "emailFormat e =
     (let domain = drop 1 (dropWhile (\<lambda>c. c \<noteq> CHR ''@'') e)
      in list_all (\<lambda>c. \<not> isSpace c) e
         \<and> length (filter (\<lambda>c. c = CHR ''@'') e) = 1
         \<and> takeWhile (\<lambda>c. c \<noteq> CHR ''@'') e \<noteq> []
         \<and> CHR ''.'' \<in> set (butlast (drop 1 domain)))"

text \<open>The keys of \<^verbatim>\<open>errors\<close>.\<close>

definition errors :: "'e Env_scheme \<Rightarrow> SellerState \<Rightarrow> string list" where
  "errors env st =
     (if isReadOnly st then []
      else
        let fd = formData st; cleanDoc = filter isDigit (cpf fd)
        in (if length (trim (nome fd)) \<le> 3 then [''nome''] else [])
           @ (if length cleanDoc = 11
              then (if \<not> cpfIsValid env cleanDoc then [''cpf''] else [])
              else if length cleanDoc = 14
              then (if \<not> cnpjIsValid env cleanDoc then [''cpf''] else [])
              else [])
           @ (if email fd \<noteq> [] \<and> \<not> emailFormat (email fd) then [''email''] else [])
           @ (if plano fd = [] then [''plano''] else [])
           @ (if cep fd = [] then [''cep''] else [])
           @ (if rua fd = [] then [''rua''] else [])
           @ (if numero fd = [] then [''numero''] else []))"

definition isFormValid :: "'e Env_scheme \<Rightarrow> SellerState \<Rightarrow> bool" where
  "isFormValid env st \<longleftrightarrow>
     errors env st = []
     \<and> nome (formData st) \<noteq> [] \<and> cpf (formData st) \<noteq> [] \<and> email (formData st) \<noteq> []
     \<and> plano (formData st) \<noteq> [] \<and> audio_url (formData st) \<noteq> []
     \<and> cep (formData st) \<noteq> [] \<and> rua (formData st) \<noteq> [] \<and> numero (formData st) \<noteq> []"

text \<open>\<^verbatim>\<open>sales.find(s => s.id === editingSaleId)\<close>\<close>

definition existingSale :: "SellerState \<Rightarrow> Sale option" where
  "existingSale st =
     (case editingSaleId st of
        None \<Rightarrow> None
      | Some e \<Rightarrow> find (\<lambda>s. sid s = e) (sales st))"

definition submitPayload :: "User \<Rightarrow> string \<Rightarrow> SellerState \<Rightarrow> Payload" where
  "submitPayload user now st =
     \<lparr>p_id = editingSaleId st,
      p_seller_id = user_id user,
      p_seller_name = user_name user,
      p_customer_data = formData st,
      p_status = IN_PROGRESS,
      p_return_reason = Some None,
      p_status_history =
        (case existingSale st of None \<Rightarrow> [] | Some s \<Rightarrow> orEmpty (statusHistory s))
        @ [\<lparr>h_status = IN_PROGRESS, updatedBy = user_name user, updatedAt = now,
            reason = None\<rparr>],
      p_created_at =
        (case existingSale st of
           None \<Rightarrow> now
         | Some s \<Rightarrow> if createdAt s = [] then now else createdAt s)\<rparr>"

text \<open>
  \<^verbatim>\<open>handleCreateSale\<close>. \<open>upsertOk\<close> says whether the upsert returned no error, \<open>loadOk\<close>
  whether the reload returned data.
\<close>

definition handleCreateSale ::
  "'e Env_scheme \<Rightarrow> User \<Rightarrow> string \<Rightarrow> string \<Rightarrow> bool \<Rightarrow> bool \<Rightarrow> SellerState
     \<Rightarrow> Outcome \<times> SellerState" where
  "handleCreateSale env user now freshId upsertOk loadOk st =
     (if isReadOnly st then (Ignored, st)
      else if \<not> isFormValid env st
      then (ValidationError,
            notify CamposPendentes warning (st\<lparr>touched := set (formKeys (formData st))\<rparr>))
      else if upsertOk
      then
        let st1 = st\<lparr>store := fst (upsert_sales freshId (submitPayload user now st) (store st))\<rparr>;
            st2 = loadData env user loadOk st1;
            st3 = st2\<lparr>showModal := False, formData := initialCustomerData,
                      editingSaleId := None, touched := {}\<rparr>
        in (Done, notify FichaEnviada success st3)
      else (StoreError, notify ErroEnviarFicha warning st))"

text \<open>
  \<^verbatim>\<open>handleDeleteDraft(draftId)\<close>. \<open>confirmed\<close> is the answer to \<^verbatim>\<open>window.confirm\<close>,
  \<open>deleteOk\<close> says whether the store's delete returned no error.
\<close>

definition handleDeleteDraft ::
  "'e Env_scheme \<Rightarrow> User \<Rightarrow> bool \<Rightarrow> bool \<Rightarrow> bool \<Rightarrow> string \<Rightarrow> SellerState
     \<Rightarrow> Outcome \<times> SellerState" where
  "handleDeleteDraft env user confirmed deleteOk loadOk draftId st =
     (if confirmed
      then
        (if deleteOk
         then
           let st1 = st\<lparr>store := filter (\<lambda>r. sid r \<noteq> draftId) (store st)\<rparr>;
               st2 = loadData env user loadOk st1;
               st3 = st2\<lparr>showModal := False, editingSaleId := None,
                         formData := initialCustomerData\<rparr>
           in (Done, notify RascunhoExcluido info st3)
         else (StoreError, st))
      else (Ignored, st))"

text \<open>
  The rows of the list for which the page renders the delete button
  (\<^verbatim>\<open>isDraft && <button onClick={() => handleDeleteDraft(sale.id)}>\<close>).
\<close>

definition deleteOffered :: "SellerState \<Rightarrow> Sale list" where
  "deleteOffered st = filter (\<lambda>sale. status sale = DRAFT) (sales st)"

text \<open>
  A click on the delete button of the row \<open>sale\<close>: the handler's only call site. A row
  without the button cannot be clicked, and nothing happens.
\<close>

definition clickDelete ::
  "'e Env_scheme \<Rightarrow> User \<Rightarrow> bool \<Rightarrow> bool \<Rightarrow> bool \<Rightarrow> Sale \<Rightarrow> SellerState
     \<Rightarrow> Outcome \<times> SellerState" where
  "clickDelete env user confirmed deleteOk loadOk sale st =
     (if sale \<in> set (deleteOffered st)
      then handleDeleteDraft env user confirmed deleteOk loadOk (sid sale) st
      else (Ignored, st))"

section \<open>Manager dashboard over localStorage (src/unnamed/part\_002)\<close>

text \<open>
  \<^verbatim>\<open>localStorage\<close>: the keys in the order of \<^verbatim>\<open>localStorage.key(i)\<close>, each with the array
  of sales its value parses to, or \<open>None\<close> for a value that \<^verbatim>\<open>JSON.parse\<close> rejects.
\<close>

type_synonym LocalStorage = "(string \<times> Sale list option) list"

record LocalManagerState =
  localStorage :: LocalStorage
  notificationsL :: "Notification list"
  salesL :: "Sale list"
  regressions :: "string list"
  notifiedRegressions :: "string set"
  selectedSaleL :: "Sale option"
  returnReasonTextL :: string

definition setItem :: "string \<Rightarrow> Sale list \<Rightarrow> LocalStorage \<Rightarrow> LocalStorage" where
  "setItem k v ls =
     (if k \<in> fst ` set ls
      then map (\<lambda>kv. if fst kv = k then (k, Some v) else kv) ls
      else ls @ [(k, Some v)])"

text \<open>
  The first loop of \<^verbatim>\<open>loadAllSales\<close>: the sales under every key that starts with
  \<^verbatim>\<open>nexus_sales_\<close>; a value that does not parse is skipped.
\<close>

definition allSales :: "LocalStorage \<Rightarrow> Sale list" where
  "allSales ls =
     concat (map (\<lambda>kv. if take 12 (fst kv) = ''nexus_sales_'' then orEmpty (snd kv) else [])
                 ls)"

text \<open>
  The body of \<^verbatim>\<open>sortedSales.forEach\<close>, on the triple of \<^verbatim>\<open>currentRegressions\<close>, the set
  \<^verbatim>\<open>notifiedRegressions.current\<close> and the notifications.
\<close>

definition regressionStep ::
  "Sale \<Rightarrow> string list \<times> string set \<times> Notification list
     \<Rightarrow> string list \<times> string set \<times> Notification list" where
  "regressionStep sale acc =
     (let history = orEmpty (statusHistory sale);
          hasBeenApproved =
            list_ex (\<lambda>h. h_status h = ANALYZED \<or> h_status h = FINISHED) history;
          isCurrentlyEarlyStage = (status sale = IN_PROGRESS)
      in if hasBeenApproved \<and> isCurrentlyEarlyStage
         then (fst acc @ [sid sale],
               insert (sid sale) (fst (snd acc)),
               if sid sale \<in> fst (snd acc) then snd (snd acc)
               else snd (snd acc) @ [(AlertaRegressao (sid sale), warning)])
         else acc)"

definition loadAllSalesL ::
  "'e Env_scheme \<Rightarrow> LocalManagerState \<Rightarrow> LocalManagerState" where
  "loadAllSalesL env st =
     (let submittedSales = filter (\<lambda>s. status s \<noteq> DRAFT) (allSales (localStorage st));
          sortedSales = newestFirst (getTime env) submittedSales;
          acc = foldl (\<lambda>a sale. regressionStep sale a)
                  ([], notifiedRegressions st, notificationsL st) sortedSales
      in st\<lparr>notificationsL := snd (snd acc),
            notifiedRegressions := fst (snd acc),
            regressions := fst acc,
            salesL := sortedSales\<rparr>)"

text \<open>
  \<^verbatim>\<open>JSON.parse(localStorage.getItem(storageKey) || '[]')\<close>: \<open>None\<close> when the parse throws.
\<close>

definition readOwnerSales :: "LocalStorage \<Rightarrow> string \<Rightarrow> Sale list option" where
  "readOwnerSales ls k = (case map_of ls k of None \<Rightarrow> Some [] | Some v \<Rightarrow> v)"

text \<open>
  \<^verbatim>\<open>handleUpdateStatus\<close> of this version: the whole updated sale replaces the sale of
  that id in the owner's array. Reading the owner's array is outside any \<^verbatim>\<open>try\<close>.
\<close>

definition handleUpdateStatusL ::
  "'e Env_scheme \<Rightarrow> string \<Rightarrow> string \<Rightarrow> SaleStatus \<Rightarrow> string option
     \<Rightarrow> LocalManagerState \<Rightarrow> Outcome \<times> LocalManagerState" where
  "handleUpdateStatusL env now i newStatus rsn st =
     (if \<not> hasPermission env APPROVE_SALES
      then (PermissionDenied,
            st\<lparr>notificationsL := notificationsL st @ [(PermissaoInsuficiente, warning)]\<rparr>)
      else
        case find (\<lambda>s. sid s = i) (salesL st) of
          None \<Rightarrow> (NotFound, st)
        | Some saleToUpdate \<Rightarrow>
            if isRegression saleToUpdate newStatus \<and> reasonMissing rsn
            then (ValidationError,
                  st\<lparr>notificationsL :=
                       notificationsL st @ [(JustificativaRetornoObrigatoria, warning)]\<rparr>)
            else
              let updatedSale =
                    saleToUpdate\<lparr>status := newStatus,
                                 returnReason :=
                                   (if isRegression saleToUpdate newStatus then rsn
                                    else returnReason saleToUpdate),
                                 statusHistory :=
                                   Some (orEmpty (statusHistory saleToUpdate)
                                         @ [newHistoryEntry env now saleToUpdate newStatus rsn])\<rparr>;
                  storageKey = ''nexus_sales_'' @ sellerId saleToUpdate
              in (case readOwnerSales (localStorage st) storageKey of
                    None \<Rightarrow> (Thrown, st)
                  | Some ownerSales \<Rightarrow>
                     let updatedOwnerSales =
                           map (\<lambda>os. if sid os = i then updatedSale else os) ownerSales;
                         st1 = st\<lparr>localStorage :=
                                    setItem storageKey updatedOwnerSales (localStorage st)\<rparr>;
                         st2 = loadAllSalesL env st1;
                         st3 = (if (case selectedSaleL st2 of
                                      None \<Rightarrow> False | Some s \<Rightarrow> sid s = i)
                                then st2\<lparr>selectedSaleL := None\<rparr> else st2);
                         st4 = st3\<lparr>returnReasonTextL := []\<rparr>
                     in (Done,
                         st4\<lparr>notificationsL :=
                               notificationsL st4
                               @ [(StatusAtualizado i newStatus, success)]\<rparr>)))"

text \<open>
  Mounting. \<^verbatim>\<open>PermissionRoute\<close> is declared in the body of \<^verbatim>\<open>App\<close> (App.tsx, lines
  129 to 136), so every render of \<^verbatim>\<open>App\<close> makes it a new component, and the page under
  it is unmounted and mounted again: the page's state starts over, the set of notified
  regressions empty, and the mount effect runs \<^verbatim>\<open>loadAllSales\<close>. What outlives the mount
  is \<^verbatim>\<open>localStorage\<close> and the state of \<^verbatim>\<open>App\<close>, the notifications among it.
\<close>

definition freshL :: "LocalStorage \<Rightarrow> Notification list \<Rightarrow> LocalManagerState" where
  "freshL ls ns =
     \<lparr>localStorage = ls, notificationsL = ns, salesL = [], regressions = [],
      notifiedRegressions = {}, selectedSaleL = None, returnReasonTextL = []\<rparr>"

definition mountL ::
  "'e Env_scheme \<Rightarrow> LocalStorage \<Rightarrow> Notification list \<Rightarrow> LocalManagerState" where
  "mountL env ls ns = loadAllSalesL env (freshL ls ns)"

text \<open>
  Every \<^verbatim>\<open>notify\<close> sets the state of \<^verbatim>\<open>App\<close>, so \<^verbatim>\<open>App\<close> renders again and the page is
  mounted again; when that mount raises a notification of its own, the same follows.
  \<open>rendersL env n st\<close> follows up to \<open>n\<close> such renders from the state \<open>st\<close> that a
  notification has left, and stops before when a mount raises none.
\<close>

fun rendersL :: "'e Env_scheme \<Rightarrow> nat \<Rightarrow> LocalManagerState \<Rightarrow> LocalManagerState" where
  "rendersL env 0 st = st"
| "rendersL env (Suc n) st =
     (let st' = mountL env (localStorage st) (notificationsL st)
      in if notificationsL st' = notificationsL st then st' else rendersL env n st')"

text \<open>How many of the notifications are the regression alert for the sale \<open>i\<close>.\<close>

definition alertsFor :: "string \<Rightarrow> Notification list \<Rightarrow> nat" where
  "alertsFor i ns = length (filter (\<lambda>n. n = (AlertaRegressao i, warning)) ns)"

section \<open>The state graph of the specification\<close>

text \<open>
  The edges the specification lists: DRAFT to IN\_PROGRESS, IN\_PROGRESS to ANALYZED,
  ANALYZED to FINISHED, and the regression from ANALYZED or FINISHED to IN\_PROGRESS.
\<close>

definition spec_edge :: "SaleStatus \<Rightarrow> SaleStatus \<Rightarrow> bool" where
  "spec_edge a b \<longleftrightarrow>
     a = DRAFT \<and> b = IN_PROGRESS
     \<or> a = IN_PROGRESS \<and> b = ANALYZED
     \<or> a = ANALYZED \<and> b = FINISHED
     \<or> (a = ANALYZED \<or> a = FINISHED) \<and> b = IN_PROGRESS"

section \<open>Sample data\<close>

definition carlos :: User where
  "carlos = \<lparr>user_id = ''2'', user_name = ''Carlos Gerente'', user_email = ''gerente@nexus.com'',
             user_role = MANAGER, user_confirmed = True, user_createdAt = ''2023-02-15''\<rparr>"

definition ana :: User where
  "ana = \<lparr>user_id = ''3'', user_name = ''Ana Vendedora'', user_email = ''vendedor@nexus.com'',
          user_role = SELLER, user_confirmed = True, user_createdAt = ''2023-03-10''\<rparr>"

text \<open>A context for user \<open>u\<close> under the permission map \<open>perms\<close>.\<close>

definition envOf :: "User \<Rightarrow> RolePermissionsMap \<Rightarrow> Env" where
  "envOf u perms =
     \<lparr>auth_user = Some u, permissions = perms, getTime = (\<lambda>s. int (length s)),
      cpfIsValid = (\<lambda>d. True), cnpjIsValid = (\<lambda>d. True)\<rparr>"

definition cliente :: CustomerData where
  "cliente =
     \<lparr>nome = ''Joao Souza'', cpf = ''52998224725'', email = ''joao@mail.com'',
      plano = ''Fibra'', audio_url = ''a.mp3'', cep = ''01001-000'', rua = ''Rua A'',
      numero = ''10'', outros = []\<rparr>"

text \<open>A sale of Ana with the given id, status, history and return reason.\<close>

definition saleOf ::
  "string \<Rightarrow> SaleStatus \<Rightarrow> StatusHistoryEntry list \<Rightarrow> string option \<Rightarrow> Sale" where
  "saleOf i st hist rr =
     \<lparr>sid = i, sellerId = ''3'', sellerName = ''Ana Vendedora'', customerData = cliente,
      status = st, statusHistory = Some hist, createdAt = ''2024-01-01'', returnReason = rr\<rparr>"

definition entry :: "SaleStatus \<Rightarrow> string \<Rightarrow> StatusHistoryEntry" where
  "entry st who = \<lparr>h_status = st, updatedBy = who, updatedAt = ''2024-01-01'', reason = None\<rparr>"

text \<open>The manager's page showing the rows \<open>tbl\<close> of the store.\<close>

definition managerView :: "Sale list \<Rightarrow> ManagerState" where
  "managerView tbl =
     \<lparr>store = tbl, notifications = [], sales = tbl, isLoading = False,
      selectedSale = None, returnReasonText = []\<rparr>"

text \<open>The seller's page showing the rows \<open>tbl\<close>, with the form open on the sale \<open>e\<close>.\<close>

definition sellerView :: "Sale list \<Rightarrow> string option \<Rightarrow> CustomerData \<Rightarrow> SellerState" where
  "sellerView tbl e fd =
     \<lparr>store = tbl, notifications = [], sales = tbl, isLoading = False,
      showModal = True, editingSaleId = e, formData = fd, touched = {},
      viewingReturnReason = None\<rparr>"

text \<open>The manager's page of the localStorage version, showing Ana's sales \<open>xs\<close>.\<close>

definition managerViewL :: "Sale list \<Rightarrow> LocalManagerState" where
  "managerViewL xs =
     \<lparr>localStorage = [(''nexus_auth'', None), (''nexus_sales_3'', Some xs)],
      notificationsL = [], salesL = xs, regressions = [],
      notifiedRegressions = {}, selectedSaleL = None, returnReasonTextL = []\<rparr>"

definition finishedSale :: Sale where
  "finishedSale =
     saleOf ''s1'' FINISHED
       [entry IN_PROGRESS ''Ana Vendedora'', entry ANALYZED ''Carlos Gerente'',
        entry FINISHED ''Carlos Gerente''] None"

definition gerente :: Env where
  "gerente = envOf carlos DEFAULT_PERMISSIONS"

definition inProgressSale :: Sale where
  "inProgressSale = saleOf ''s1'' IN_PROGRESS [entry IN_PROGRESS ''Ana Vendedora''] None"

definition draftSale :: Sale where
  "draftSale = saleOf ''d1'' DRAFT [entry DRAFT ''Ana Vendedora''] None"

text \<open>Ana under a permission map that gives sellers no \<^verbatim>\<open>CREATE_SALES\<close>.\<close>

definition vendedora :: Env where
  "vendedora = envOf ana [SELLER \<mapsto> [VIEW_OWN_SALES]]"

text \<open>
  The manager's page after Carlos has sent the finished sale back with a justification.
\<close>

definition afterReturn :: ManagerState where
  "afterReturn =
     snd (handleUpdateStatus gerente ''2024-02-01'' True True ''s1'' IN_PROGRESS
            (Some ''documento ilegivel'') (managerView [finishedSale]))"

text \<open>A sale that the manager has sent back to Ana, as her list shows it.\<close>

definition returnedSale :: Sale where
  "returnedSale =
     saleOf ''s1'' IN_PROGRESS
       [entry IN_PROGRESS ''Ana Vendedora'', entry ANALYZED ''Carlos Gerente'',
        \<lparr>h_status = IN_PROGRESS, updatedBy = ''Carlos Gerente'', updatedAt = ''2024-02-01'',
         reason = Some ''documento ilegivel''\<rparr>]
       (Some ''documento ilegivel'')"

text \<open>A draft row whose stored history has two entries.\<close>

definition longDraft :: Sale where
  "longDraft =
     saleOf ''d1'' DRAFT [entry DRAFT ''Ana Vendedora'', entry DRAFT ''Ana Vendedora''] None"

text \<open>A finished sale of another seller.\<close>

definition foreignSale :: Sale where
  "foreignSale =
     (saleOf ''s9'' FINISHED
        [entry IN_PROGRESS ''Rui Vendedor'', entry ANALYZED ''Carlos Gerente'',
         entry FINISHED ''Carlos Gerente''] None)
       \<lparr>sellerId := ''7'', sellerName := ''Rui Vendedor''\<rparr>"

text \<open>What localStorage holds when Ana's sale \<open>s1\<close> has been sent back.\<close>

definition returnedStorage :: LocalStorage where
  "returnedStorage = [(''nexus_sales_3'', Some [returnedSale])]"

text \<open>
  Ana has two tabs open. The list of the first shows her draft \<open>d1\<close>; in the second she
  has submitted it, so the store holds it as IN\_PROGRESS.
\<close>

definition staleList :: SellerState where
  "staleList =
     (sellerView [draftSale] None initialCustomerData)
       \<lparr>store := store (snd (handleCreateSale (envOf ana DEFAULT_PERMISSIONS) ana
                                ''2024-03-01'' ''n1'' True True
                                (sellerView [draftSale] (Some ''d1'') cliente)))\<rparr>"


section \<open>Properties\<close>

subsection \<open>Facts about the two status handlers\<close>


lemma store_notify: "store (notify m t st) = store st"
  by (simp add: notify_def)

lemma sales_notify: "sales (notify m t st) = sales st"
  by (simp add: notify_def)

lemma store_loadAllSales: "store (loadAllSales env ok st) = store st"
  by (simp add: loadAllSales_def Let_def)

lemma handleUpdateStatus_denied:
  "\<not> hasPermission env APPROVE_SALES \<Longrightarrow>
   handleUpdateStatus env now updateOk loadOk i newStatus rsn st
     = (PermissionDenied, notify PermissaoInsuficiente warning st)"
  by (simp add: handleUpdateStatus_def)


lemma handleUpdateStatus_Done_iff:
  "fst (handleUpdateStatus env now updateOk loadOk i newStatus rsn st) = Done \<longleftrightarrow>
     hasPermission env APPROVE_SALES
     \<and> (\<exists>sale. find (\<lambda>s. sid s = i) (sales st) = Some sale
           \<and> \<not> (isRegression sale newStatus \<and> reasonMissing rsn))
     \<and> updateOk"
  by (auto simp: handleUpdateStatus_def Let_def split: option.splits)

lemma handleUpdateStatus_failed:
  "fst (handleUpdateStatus env now updateOk loadOk i newStatus rsn st) \<noteq> Done \<Longrightarrow>
   store (snd (handleUpdateStatus env now updateOk loadOk i newStatus rsn st)) = store st
   \<and> sales (snd (handleUpdateStatus env now updateOk loadOk i newStatus rsn st)) = sales st"
  by (auto simp: handleUpdateStatus_def Let_def store_notify sales_notify split: option.splits if_splits)

lemma handleUpdateStatus_written:
  "fst (handleUpdateStatus env now updateOk loadOk i newStatus rsn st) = Done \<Longrightarrow>
   find (\<lambda>s. sid s = i) (sales st) = Some sale \<Longrightarrow>
   store (snd (handleUpdateStatus env now updateOk loadOk i newStatus rsn st)) =
     update_sales i newStatus
       (if isRegression sale newStatus then rsn else returnReason sale)
       (orEmpty (statusHistory sale) @ [newHistoryEntry env now sale newStatus rsn])
       (store st)"
  by (auto simp: handleUpdateStatus_def Let_def store_notify store_loadAllSales
           split: option.splits if_splits)

lemma handleUpdateStatusL_denied:
  "\<not> hasPermission env APPROVE_SALES \<Longrightarrow>
   handleUpdateStatusL env now i newStatus rsn st
     = (PermissionDenied,
        st\<lparr>notificationsL := notificationsL st @ [(PermissaoInsuficiente, warning)]\<rparr>)"
  by (simp add: handleUpdateStatusL_def)


lemma handleUpdateStatusL_Done_iff:
  "fst (handleUpdateStatusL env now i newStatus rsn st) = Done \<longleftrightarrow>
     hasPermission env APPROVE_SALES
     \<and> (\<exists>sale. find (\<lambda>s. sid s = i) (salesL st) = Some sale
           \<and> \<not> (isRegression sale newStatus \<and> reasonMissing rsn)
           \<and> readOwnerSales (localStorage st) (''nexus_sales_'' @ sellerId sale) \<noteq> None)"
  by (auto simp: handleUpdateStatusL_def Let_def split: option.splits)

lemma handleUpdateStatusL_failed:
  "fst (handleUpdateStatusL env now i newStatus rsn st) \<noteq> Done \<Longrightarrow>
   localStorage (snd (handleUpdateStatusL env now i newStatus rsn st)) = localStorage st
   \<and> salesL (snd (handleUpdateStatusL env now i newStatus rsn st)) = salesL st"
  by (auto simp: handleUpdateStatusL_def Let_def split: option.splits if_splits)

lemma localStorage_loadAllSalesL: "localStorage (loadAllSalesL env st) = localStorage st"
  by (simp add: loadAllSalesL_def Let_def)

lemma handleUpdateStatusL_written:
  "fst (handleUpdateStatusL env now i newStatus rsn st) = Done \<Longrightarrow>
   find (\<lambda>s. sid s = i) (salesL st) = Some sale \<Longrightarrow>
   readOwnerSales (localStorage st) (''nexus_sales_'' @ sellerId sale) = Some ownerSales \<Longrightarrow>
   localStorage (snd (handleUpdateStatusL env now i newStatus rsn st)) =
     setItem (''nexus_sales_'' @ sellerId sale)
       (map (\<lambda>os. if sid os = i
                  then sale\<lparr>status := newStatus,
                            returnReason :=
                              (if isRegression sale newStatus then rsn else returnReason sale),
                            statusHistory :=
                              Some (orEmpty (statusHistory sale)
                                    @ [newHistoryEntry env now sale newStatus rsn])\<rparr>
                  else os) ownerSales)
       (localStorage st)"
  by (auto simp: handleUpdateStatusL_def Let_def localStorage_loadAllSalesL
           split: option.splits if_splits)

lemma gerente_approves: "hasPermission gerente APPROVE_SALES"
  by (simp add: hasPermission_def gerente_def envOf_def carlos_def DEFAULT_PERMISSIONS_def)

lemma single_row:
  assumes "map sid xs = [i]" and "\<forall>r \<in> set xs. sid r = i \<longrightarrow> f r = v"
  shows "map f xs = [v]"
  using assms by (cases xs) auto

lemma update_sales_Nil: "update_sales i s rr h [] = []"
  by (simp add: update_sales_def)

lemma update_sales_Cons:
  "update_sales i s rr h (x # tbl) =
     (if sid x = i then x\<lparr>status := s, returnReason := rr, statusHistory := Some h\<rparr> else x)
     # update_sales i s rr h tbl"
  by (simp add: update_sales_def)

lemma update_sales_member:
  "r \<in> set (update_sales i s rr h tbl) \<Longrightarrow> sid r = i \<Longrightarrow>
     status r = s \<and> returnReason r = rr \<and> statusHistory r = Some h"
proof (induction tbl)
  case Nil
  then show ?case by (simp add: update_sales_Nil)
next
  case (Cons x tbl)
  show ?case
  proof (cases "r \<in> set (update_sales i s rr h tbl)")
    case True
    with Cons show ?thesis by blast
  next
    case False
    with Cons.prems
    have "r = (if sid x = i
               then x\<lparr>status := s, returnReason := rr, statusHistory := Some h\<rparr> else x)"
      by (simp add: update_sales_Cons)
    with Cons.prems(2) show ?thesis by (simp split: if_splits)
  qed
qed


lemma length_update_sales: "length (update_sales i s rr h tbl) = length tbl"
  by (simp add: update_sales_def)

lemma map_of_setItem: "map_of (setItem k v ls) k = Some (Some v)"
proof (cases "k \<in> fst ` set ls")
  case True
  then have "map_of (map (\<lambda>kv. if fst kv = k then (k, Some v) else kv) ls) k = Some (Some v)"
    by (induction ls) auto
  with True show ?thesis by (simp add: setItem_def)
next
  case False
  then have "map_of ls k = None" by (simp add: map_of_eq_None_iff)
  with False show ?thesis by (simp add: setItem_def map_add_def)
qed

lemma readOwnerSales_setItem: "readOwnerSales (setItem k v ls) k = Some v"
  by (simp add: readOwnerSales_def map_of_setItem)

lemma handleUpdateStatus_rows:
  assumes d: "fst (handleUpdateStatus env now updateOk loadOk i newStatus rsn st) = Done"
      and f: "find (\<lambda>s. sid s = i) (sales st) = Some sale"
      and r: "r \<in> set (store (snd (handleUpdateStatus env now updateOk loadOk i newStatus rsn st)))"
      and i: "sid r = i"
  shows "status r = newStatus
         \<and> returnReason r = (if isRegression sale newStatus then rsn else returnReason sale)
         \<and> statusHistory r =
             Some (orEmpty (statusHistory sale) @ [newHistoryEntry env now sale newStatus rsn])"
  using r i unfolding handleUpdateStatus_written [OF d f] by (rule update_sales_member)

lemma handleUpdateStatusL_rows:
  assumes d: "fst (handleUpdateStatusL env now i newStatus rsn st) = Done"
      and f: "find (\<lambda>s. sid s = i) (salesL st) = Some sale"
      and r: "readOwnerSales (localStorage (snd (handleUpdateStatusL env now i newStatus rsn st)))
                (''nexus_sales_'' @ sellerId sale) = Some xs"
      and x: "x \<in> set xs" and i: "sid x = i"
  shows "x = sale\<lparr>status := newStatus,
                   returnReason := (if isRegression sale newStatus then rsn else returnReason sale),
                   statusHistory :=
                     Some (orEmpty (statusHistory sale)
                           @ [newHistoryEntry env now sale newStatus rsn])\<rparr>"
proof -
  from d f obtain ownerSales
    where o: "readOwnerSales (localStorage st) (''nexus_sales_'' @ sellerId sale) = Some ownerSales"
    by (auto simp: handleUpdateStatusL_Done_iff)
  let ?u = "sale\<lparr>status := newStatus,
                   returnReason := (if isRegression sale newStatus then rsn else returnReason sale),
                   statusHistory :=
                     Some (orEmpty (statusHistory sale)
                           @ [newHistoryEntry env now sale newStatus rsn])\<rparr>"
  from r have "xs = map (\<lambda>os. if sid os = i then ?u else os) ownerSales"
    unfolding handleUpdateStatusL_written [OF d f o] by (simp add: readOwnerSales_setItem)
  with x obtain os where "x = (if sid os = i then ?u else os)"
    by (auto simp del: if_image_distrib)
  with i show ?thesis by (simp split: if_splits)
qed

subsection \<open>Facts about the seller's writes\<close>

lemma store_loadData: "store (loadData env user ok st) = store st"
  by (simp add: loadData_def Let_def)

lemma sid_rowOf: "sid (rowOf p i old) = i"
  by (simp add: rowOf_def)

lemma rowOf_fields:
  "status (rowOf p i old) = p_status p"
  "statusHistory (rowOf p i old) = Some (p_status_history p)"
  "createdAt (rowOf p i old) = p_created_at p"
  "returnReason (rowOf p i old) = (case p_return_reason p of None \<Rightarrow> old | Some v \<Rightarrow> v)"
  by (simp_all add: rowOf_def)

lemma overwrite_member:
  "r \<in> set (map (\<lambda>x. if sid x = i then rowOf p i (returnReason x) else x) tbl) \<Longrightarrow>
   (\<exists>x \<in> set tbl. sid x = i \<and> r = rowOf p i (returnReason x)) \<or> (r \<in> set tbl \<and> sid r \<noteq> i)"
proof (induction tbl)
  case Nil
  then show ?case by simp
next
  case (Cons a tbl)
  from Cons.prems
  have "r = (if sid a = i then rowOf p i (returnReason a) else a)
        \<or> r \<in> set (map (\<lambda>x. if sid x = i then rowOf p i (returnReason x) else x) tbl)"
    by (simp del: if_image_distrib)
  then show ?case
  proof
    assume "r = (if sid a = i then rowOf p i (returnReason a) else a)"
    then show ?thesis by (cases "sid a = i") simp_all
  next
    assume "r \<in> set (map (\<lambda>x. if sid x = i then rowOf p i (returnReason x) else x) tbl)"
    from Cons.IH [OF this] show ?thesis by auto
  qed
qed

text \<open>Every row of the table after an upsert is an old row or a row made from the payload.\<close>

lemma upsert_sales_member:
  assumes "r \<in> set (fst (upsert_sales freshId p tbl))"
  shows "r \<in> set tbl \<or> (\<exists>i old. r = rowOf p i old)"
proof (cases "p_id p")
  case None
  with assms show ?thesis by (auto simp: upsert_sales_def)
next
  case (Some i)
  show ?thesis
  proof (cases "i \<in> sid ` set tbl")
    case True
    with Some assms
    have "r \<in> set (map (\<lambda>x. if sid x = i then rowOf p i (returnReason x) else x) tbl)"
      by (simp add: upsert_sales_def del: if_image_distrib)
    from overwrite_member [OF this] show ?thesis by blast
  next
    case False
    with Some assms show ?thesis by (auto simp: upsert_sales_def)
  qed
qed

text \<open>With an id in the payload, the rows of that id after the upsert come from the payload.\<close>

lemma upsert_sales_id:
  assumes p: "p_id p = Some i"
      and r: "r \<in> set (fst (upsert_sales freshId p tbl))" and i: "sid r = i"
  shows "\<exists>old. r = rowOf p i old"
proof (cases "i \<in> sid ` set tbl")
  case True
  with p r
  have "r \<in> set (map (\<lambda>x. if sid x = i then rowOf p i (returnReason x) else x) tbl)"
    by (simp add: upsert_sales_def del: if_image_distrib)
  from overwrite_member [OF this] i show ?thesis by blast
next
  case False
  with p r have "r \<in> set tbl \<or> r = rowOf p i None"
    by (auto simp: upsert_sales_def)
  with False i show ?thesis by auto
qed

lemma upsert_sales_id_exists:
  assumes p: "p_id p = Some i"
  shows "\<exists>r \<in> set (fst (upsert_sales freshId p tbl)). sid r = i"
proof (cases "i \<in> sid ` set tbl")
  case True
  then obtain x where x: "x \<in> set tbl" "sid x = i" by auto
  then have m: "rowOf p i (returnReason x)
             \<in> set (map (\<lambda>x. if sid x = i then rowOf p i (returnReason x) else x) tbl)"
    by (force simp del: if_image_distrib simp: image_iff)
  from True p
  have "fst (upsert_sales freshId p tbl)
          = map (\<lambda>x. if sid x = i then rowOf p i (returnReason x) else x) tbl"
    by (simp add: upsert_sales_def)
  with m have "rowOf p i (returnReason x) \<in> set (fst (upsert_sales freshId p tbl))"
    by simp
  then show ?thesis
    by (rule bexI [rotated]) (rule sid_rowOf)
next
  case False
  with p show ?thesis by (simp add: upsert_sales_def sid_rowOf)
qed

text \<open>The rows an upsert returns are in the table afterwards and come from the payload.\<close>

lemma upsert_sales_written:
  assumes "r \<in> set (snd (upsert_sales freshId p tbl))"
  shows "r \<in> set (fst (upsert_sales freshId p tbl)) \<and> (\<exists>i old. r = rowOf p i old)"
proof (cases "p_id p")
  case None
  with assms show ?thesis by (auto simp: upsert_sales_def)
next
  case (Some i)
  show ?thesis
  proof (cases "i \<in> sid ` set tbl")
    case True
    with Some assms obtain x where x: "x \<in> set tbl" "sid x = i" "r = rowOf p i (returnReason x)"
      by (auto simp: upsert_sales_def)
    then have m: "r \<in> set (map (\<lambda>x. if sid x = i then rowOf p i (returnReason x) else x) tbl)"
      by (force simp del: if_image_distrib simp: image_iff)
    from True Some
    have "fst (upsert_sales freshId p tbl)
            = map (\<lambda>x. if sid x = i then rowOf p i (returnReason x) else x) tbl"
      by (simp add: upsert_sales_def)
    with m have "r \<in> set (fst (upsert_sales freshId p tbl))"
      by simp
    with x(3) show ?thesis by blast
  next
    case False
    with Some assms show ?thesis by (auto simp: upsert_sales_def)
  qed
qed

lemma upsert_sales_nonempty: "snd (upsert_sales freshId p tbl) \<noteq> []"
proof (cases "p_id p")
  case None
  then show ?thesis by (simp add: upsert_sales_def)
next
  case (Some i)
  show ?thesis
  proof (cases "i \<in> sid ` set tbl")
    case True
    then obtain x where "x \<in> set tbl" "sid x = i" by auto
    then have "filter (\<lambda>r. sid r = i) tbl \<noteq> []"
      by (auto simp: filter_empty_conv)
    with True Some show ?thesis by (simp add: upsert_sales_def)
  next
    case False
    with Some show ?thesis by (simp add: upsert_sales_def)
  qed
qed

text \<open>An upsert keeps the old rows in place, either as they were or overwritten.\<close>

lemma upsert_sales_nth:
  assumes "k < length tbl"
  shows "fst (upsert_sales freshId p tbl) ! k =
           (if p_id p = Some (sid (tbl ! k))
            then rowOf p (sid (tbl ! k)) (returnReason (tbl ! k)) else tbl ! k)"
proof (cases "p_id p")
  case None
  with assms show ?thesis by (simp add: upsert_sales_def nth_append)
next
  case (Some i)
  show ?thesis
  proof (cases "i \<in> sid ` set tbl")
    case True
    with Some assms show ?thesis by (auto simp: upsert_sales_def)
  next
    case False
    with assms have "sid (tbl ! k) \<noteq> i" by force
    with False Some assms show ?thesis by (auto simp: upsert_sales_def nth_append)
  qed
qed

lemma handleCreateSale_Done_iff:
  "fst (handleCreateSale env user now freshId upsertOk loadOk st) = Done \<longleftrightarrow>
     \<not> isReadOnly st \<and> isFormValid env st \<and> upsertOk"
  by (simp add: handleCreateSale_def Let_def)

lemma handleCreateSale_written:
  "fst (handleCreateSale env user now freshId upsertOk loadOk st) = Done \<Longrightarrow>
   store (snd (handleCreateSale env user now freshId upsertOk loadOk st)) =
     fst (upsert_sales freshId (submitPayload user now st) (store st))"
  by (simp add: handleCreateSale_def Let_def store_notify store_loadData split: if_splits)

lemma handleCreateSale_failed:
  "fst (handleCreateSale env user now freshId upsertOk loadOk st) \<noteq> Done \<Longrightarrow>
   store (snd (handleCreateSale env user now freshId upsertOk loadOk st)) = store st"
  by (simp add: handleCreateSale_def Let_def store_notify split: if_splits)

lemma autosave_store:
  "store (autosave user now freshId ok st) =
     (if showModal st \<and> \<not> isReadOnly st
         \<and> (nome (formData st) \<noteq> [] \<or> cpf (formData st) \<noteq> []) \<and> ok
      then fst (upsert_sales freshId (autosavePayload user now st) (store st))
      else store st)"
  by (simp add: autosave_def Let_def)

lemma set_newestFirst: "set (newestFirst gt xs) = set xs"
  by (simp add: newestFirst_def)

subsection \<open>Facts about the regression alerts\<close>

lemma regressionStep_seen: "fst (snd acc) \<subseteq> fst (snd (regressionStep sale acc))"
  by (auto simp: regressionStep_def Let_def)

lemma foldl_regressionStep_seen:
  "fst (snd acc) \<subseteq> fst (snd (foldl (\<lambda>a sale. regressionStep sale a) acc xs))"
proof (induction xs arbitrary: acc)
  case Nil
  then show ?case by simp
next
  case (Cons x xs)
  from Cons.IH [of "regressionStep x acc"] regressionStep_seen [of acc x]
  show ?case by auto
qed

lemma loadAllSalesL_seen: "notifiedRegressions st \<subseteq> notifiedRegressions (loadAllSalesL env st)"
  using foldl_regressionStep_seen [of "([], notifiedRegressions st, notificationsL st)"]
  by (simp add: loadAllSalesL_def Let_def)

lemma alertsFor_append: "alertsFor i (ns @ ms) = alertsFor i ns + alertsFor i ms"
  by (simp add: alertsFor_def)

subsection \<open>Facts about the sample data\<close>

lemma afterReturn_Done:
  "fst (handleUpdateStatus gerente ''2024-02-01'' True True ''s1'' IN_PROGRESS
            (Some ''documento ilegivel'') (managerView [finishedSale])) = Done"
  by (simp add: handleUpdateStatus_Done_iff gerente_approves managerView_def finishedSale_def
                saleOf_def reasonMissing_def trim_def isSpace_def)

lemma afterReturn_eval:
  "afterReturn =
     \<lparr>store = [saleOf ''s1'' IN_PROGRESS
                 [entry IN_PROGRESS ''Ana Vendedora'', entry ANALYZED ''Carlos Gerente'',
                  entry FINISHED ''Carlos Gerente'',
                  \<lparr>h_status = IN_PROGRESS, updatedBy = ''Carlos Gerente'',
                   updatedAt = ''2024-02-01'', reason = Some ''documento ilegivel''\<rparr>]
                 (Some ''documento ilegivel'')],
      notifications = [(VendaAtualizada ''s1'' IN_PROGRESS, success)],
      sales = [saleOf ''s1'' IN_PROGRESS
                 [entry IN_PROGRESS ''Ana Vendedora'', entry ANALYZED ''Carlos Gerente'',
                  entry FINISHED ''Carlos Gerente'',
                  \<lparr>h_status = IN_PROGRESS, updatedBy = ''Carlos Gerente'',
                   updatedAt = ''2024-02-01'', reason = Some ''documento ilegivel''\<rparr>]
                 (Some ''documento ilegivel'')],
      isLoading = False, selectedSale = None, returnReasonText = []\<rparr>"
  by (simp add: afterReturn_def handleUpdateStatus_def hasPermission_def
                DEFAULT_PERMISSIONS_def managerView_def
                finishedSale_def saleOf_def isRegression_def reasonMissing_def trim_def
                isSpace_def Let_def update_sales_def orEmpty_def newHistoryEntry_def
                actorName_def gerente_def envOf_def carlos_def loadAllSales_def newestFirst_def
                notify_def)


lemma cliente_valid:
  "isFormValid vendedora (sellerView tbl (Some ''d1'') cliente)
   \<or> isReadOnly (sellerView tbl (Some ''d1'') cliente)"
  by (simp add: isFormValid_def errors_def sellerView_def cliente_def trim_def isSpace_def
                isDigit_def emailFormat_def vendedora_def envOf_def Let_def)

lemma cliente_valid_any:
  "isFormValid (envOf u perms) (sellerView tbl e cliente) \<or> isReadOnly (sellerView tbl e cliente)"
  by (simp add: isFormValid_def errors_def sellerView_def cliente_def trim_def isSpace_def
                isDigit_def emailFormat_def envOf_def Let_def)

lemma mountL_returned:
  "mountL gerente returnedStorage ns =
     \<lparr>localStorage = returnedStorage,
      notificationsL = ns @ [(AlertaRegressao ''s1'', warning)],
      salesL = [returnedSale], regressions = [''s1''], notifiedRegressions = {''s1''},
      selectedSaleL = None, returnReasonTextL = []\<rparr>"
  by (simp add: mountL_def freshL_def loadAllSalesL_def allSales_def returnedStorage_def
                newestFirst_def regressionStep_def returnedSale_def saleOf_def entry_def
                orEmpty_def Let_def)

lemma reload_returned:
  "notificationsL (loadAllSalesL gerente (mountL gerente returnedStorage ns))
     = ns @ [(AlertaRegressao ''s1'', warning)]"
  unfolding mountL_returned
  by (simp add: loadAllSalesL_def allSales_def returnedStorage_def
                newestFirst_def regressionStep_def returnedSale_def saleOf_def entry_def
                orEmpty_def Let_def)

lemma rendersL_returned:
  "alertsFor ''s1'' (notificationsL (rendersL gerente n (mountL gerente returnedStorage ns)))
     = alertsFor ''s1'' ns + Suc n"
proof (induction n arbitrary: ns)
  case 0
  show ?case by (simp add: mountL_returned alertsFor_append) (simp add: alertsFor_def)
next
  case (Suc n)
  have "rendersL gerente (Suc n) (mountL gerente returnedStorage ns)
          = rendersL gerente n
              (mountL gerente returnedStorage (ns @ [(AlertaRegressao ''s1'', warning)]))"
    by (simp add: mountL_returned Let_def)
  then show ?case
    by (simp add: Suc.IH alertsFor_append) (simp add: alertsFor_def)
qed

lemma staleList_eval:
  "sales staleList = [draftSale]
   \<and> map sid (store staleList) = [''d1'']
   \<and> map sellerId (store staleList) = [''3'']
   \<and> map status (store staleList) = [IN_PROGRESS]"
proof -
  let ?v = "sellerView [draftSale] (Some ''d1'') cliente"
  let ?e = "envOf ana DEFAULT_PERMISSIONS"
  have ro: "\<not> isReadOnly ?v"
    by (simp add: isReadOnly_def sellerView_def draftSale_def saleOf_def)
  with cliente_valid_any [of ana DEFAULT_PERMISSIONS "[draftSale]" "Some ''d1''"]
  have v: "isFormValid ?e ?v" by simp
  from ro v have d: "fst (handleCreateSale ?e ana ''2024-03-01'' ''n1'' True True ?v) = Done"
    by (simp add: handleCreateSale_Done_iff)
  show ?thesis
    unfolding staleList_def
    by (simp add: handleCreateSale_written [OF d])
       (simp add: upsert_sales_def submitPayload_def sellerView_def draftSale_def saleOf_def
                  rowOf_def ana_def)
qed


section \<open>Claims\<close>

subsection \<open>C1: the return reason\<close>

text \<open>
  Claim C1, as stated, fails. Carlos sends the finished sale \<open>s1\<close> back with the reason
  ``documento ilegivel'' and then marks it ANALYZED: the second change is no regression and
  succeeds, yet the stored return reason is still the one of the first.
\<close>

theorem return_reason_survives_approval:
  "map status (store afterReturn) = [IN_PROGRESS]
   \<and> map returnReason (store afterReturn) = [Some ''documento ilegivel'']
   \<and> fst (handleUpdateStatus gerente ''2024-02-02'' True True ''s1'' ANALYZED None afterReturn)
       = Done
   \<and> map status (store (snd (handleUpdateStatus gerente ''2024-02-02'' True True ''s1'' ANALYZED
                               None afterReturn))) = [ANALYZED]
   \<and> map returnReason (store (snd (handleUpdateStatus gerente ''2024-02-02'' True True ''s1''
                                     ANALYZED None afterReturn)))
       = [Some ''documento ilegivel'']"
proof -
  let ?s = "saleOf ''s1'' IN_PROGRESS
                 [entry IN_PROGRESS ''Ana Vendedora'', entry ANALYZED ''Carlos Gerente'',
                  entry FINISHED ''Carlos Gerente'',
                  \<lparr>h_status = IN_PROGRESS, updatedBy = ''Carlos Gerente'',
                   updatedAt = ''2024-02-01'', reason = Some ''documento ilegivel''\<rparr>]
                 (Some ''documento ilegivel'')"
  have f: "find (\<lambda>s. sid s = ''s1'') (sales afterReturn) = Some ?s"
    by (simp add: afterReturn_eval saleOf_def)
  have d: "fst (handleUpdateStatus gerente ''2024-02-02'' True True ''s1'' ANALYZED None
                  afterReturn) = Done"
    unfolding handleUpdateStatus_Done_iff using f gerente_approves
    by (simp add: isRegression_def)
  have a: "map status (store afterReturn) = [IN_PROGRESS]"
    and b: "map returnReason (store afterReturn) = [Some ''documento ilegivel'']"
    by (simp_all add: afterReturn_eval saleOf_def)
  have s: "store afterReturn = [?s]"
    by (simp add: afterReturn_eval)
  have c: "map status (store (snd (handleUpdateStatus gerente ''2024-02-02'' True True ''s1''
                                     ANALYZED None afterReturn))) = [ANALYZED]"
    unfolding handleUpdateStatus_written [OF d f] s
    by (simp add: update_sales_Cons update_sales_Nil saleOf_def)
  have e: "map returnReason (store (snd (handleUpdateStatus gerente ''2024-02-02'' True True
                                     ''s1'' ANALYZED None afterReturn)))
             = [Some ''documento ilegivel'']"
    unfolding handleUpdateStatus_written [OF d f] s
    by (simp add: update_sales_Cons update_sales_Nil saleOf_def isRegression_def)
  from a b d c e show ?thesis by (intro conjI)
qed

text \<open>
  Claim C1, amended. A successful status change by the manager writes, into every row of
  that id, the supplied reason as return reason when the change is a regression (and then
  the reason has at least 5 characters after trimming), and otherwise the return reason
  the sale already had: a change that is no regression keeps it. Both versions of the
  manager page.
\<close>

theorem return_reason_after_status_change:
  "(fst (handleUpdateStatus env now updateOk loadOk i newStatus rsn st) = Done \<longrightarrow>
    find (\<lambda>s. sid s = i) (sales st) = Some sale \<longrightarrow>
      (\<forall>r \<in> set (store (snd (handleUpdateStatus env now updateOk loadOk i newStatus rsn st))).
         sid r = i \<longrightarrow>
           returnReason r = (if isRegression sale newStatus then rsn else returnReason sale))
      \<and> (isRegression sale newStatus \<longrightarrow> (\<exists>t. rsn = Some t \<and> 5 \<le> length (trim t))))
   \<and> (fst (handleUpdateStatusL env now i newStatus rsn stL) = Done \<longrightarrow>
      find (\<lambda>s. sid s = i) (salesL stL) = Some saleL \<longrightarrow>
        (\<forall>xs. readOwnerSales (localStorage (snd (handleUpdateStatusL env now i newStatus rsn stL)))
                (''nexus_sales_'' @ sellerId saleL) = Some xs \<longrightarrow>
           (\<forall>x \<in> set xs. sid x = i \<longrightarrow>
              returnReason x = (if isRegression saleL newStatus then rsn else returnReason saleL)))
        \<and> (isRegression saleL newStatus \<longrightarrow> (\<exists>t. rsn = Some t \<and> 5 \<le> length (trim t))))"
proof (intro conjI impI allI ballI)
  fix r
  assume "fst (handleUpdateStatus env now updateOk loadOk i newStatus rsn st) = Done"
     "find (\<lambda>s. sid s = i) (sales st) = Some sale"
     "r \<in> set (store (snd (handleUpdateStatus env now updateOk loadOk i newStatus rsn st)))"
     "sid r = i"
  from handleUpdateStatus_rows [OF this]
  show "returnReason r = (if isRegression sale newStatus then rsn else returnReason sale)"
    by simp
next
  assume "fst (handleUpdateStatus env now updateOk loadOk i newStatus rsn st) = Done"
     "find (\<lambda>s. sid s = i) (sales st) = Some sale" "isRegression sale newStatus"
  then have "\<not> reasonMissing rsn"
    by (simp add: handleUpdateStatus_Done_iff)
  then show "\<exists>t. rsn = Some t \<and> 5 \<le> length (trim t)"
    by (cases rsn) (simp_all add: reasonMissing_def)
next
  fix xs x
  assume "fst (handleUpdateStatusL env now i newStatus rsn stL) = Done"
     "find (\<lambda>s. sid s = i) (salesL stL) = Some saleL"
     "readOwnerSales (localStorage (snd (handleUpdateStatusL env now i newStatus rsn stL)))
                (''nexus_sales_'' @ sellerId saleL) = Some xs"
     "x \<in> set xs" "sid x = i"
  from handleUpdateStatusL_rows [OF this]
  show "returnReason x = (if isRegression saleL newStatus then rsn else returnReason saleL)"
    by simp
next
  assume "fst (handleUpdateStatusL env now i newStatus rsn stL) = Done"
     "find (\<lambda>s. sid s = i) (salesL stL) = Some saleL" "isRegression saleL newStatus"
  then have "\<not> reasonMissing rsn"
    by (simp add: handleUpdateStatusL_Done_iff)
  then show "\<exists>t. rsn = Some t \<and> 5 \<le> length (trim t)"
    by (cases rsn) (simp_all add: reasonMissing_def)
qed


text \<open>The two changes of the counterexample, read through the amended statement.\<close>

theorem return_reason_after_status_change_witness:
  "map returnReason (store afterReturn) = [Some ''documento ilegivel'']
   \<and> map returnReason
         (store (snd (handleUpdateStatus gerente ''2024-02-02'' True True ''s1'' ANALYZED None
                        afterReturn)))
       = [Some ''documento ilegivel'']"
proof -
  let ?s = "saleOf ''s1'' IN_PROGRESS
                 [entry IN_PROGRESS ''Ana Vendedora'', entry ANALYZED ''Carlos Gerente'',
                  entry FINISHED ''Carlos Gerente'',
                  \<lparr>h_status = IN_PROGRESS, updatedBy = ''Carlos Gerente'',
                   updatedAt = ''2024-02-01'', reason = Some ''documento ilegivel''\<rparr>]
                 (Some ''documento ilegivel'')"
  have f: "find (\<lambda>s. sid s = ''s1'') (sales afterReturn) = Some ?s"
    by (simp add: afterReturn_eval saleOf_def)
  have d: "fst (handleUpdateStatus gerente ''2024-02-02'' True True ''s1'' ANALYZED None
                  afterReturn) = Done"
    unfolding handleUpdateStatus_Done_iff using f gerente_approves
    by (simp add: isRegression_def)
  have v: "(if isRegression ?s ANALYZED then None else returnReason ?s)
             = Some ''documento ilegivel''"
    by (simp add: isRegression_def saleOf_def)
  have f0: "find (\<lambda>s. sid s = ''s1'') (sales (managerView [finishedSale])) = Some finishedSale"
    by (simp add: managerView_def finishedSale_def saleOf_def)
  have v0: "(if isRegression finishedSale IN_PROGRESS then Some ''documento ilegivel''
             else returnReason finishedSale) = Some ''documento ilegivel''"
    by (simp add: isRegression_def finishedSale_def saleOf_def)
  have s: "store afterReturn = [?s]"
    by (simp add: afterReturn_eval)
  have i0: "map sid (store afterReturn) = [''s1'']"
    by (simp add: afterReturn_eval saleOf_def)
  have i: "map sid (store (snd (handleUpdateStatus gerente ''2024-02-02'' True True ''s1''
                                  ANALYZED None afterReturn))) = [''s1'']"
    unfolding handleUpdateStatus_written [OF d f] s
    by (simp add: update_sales_Cons update_sales_Nil saleOf_def)
  note t = return_reason_after_status_change
             [of gerente "''2024-02-02''" True True "''s1''" ANALYZED None afterReturn ?s,
              THEN conjunct1, THEN mp, OF d, THEN mp, OF f, THEN conjunct1]
  note t0 = return_reason_after_status_change
             [of gerente "''2024-02-01''" True True "''s1''" IN_PROGRESS
                 "Some ''documento ilegivel''" "managerView [finishedSale]" finishedSale,
              THEN conjunct1, THEN mp, OF afterReturn_Done, THEN mp, OF f0, THEN conjunct1,
              folded afterReturn_def]
  from single_row [OF i0, where f = returnReason, OF t0]
       single_row [OF i, where f = returnReason, OF t]
  show ?thesis unfolding v v0 by (intro conjI)
qed

subsection \<open>C2: the default permissions after a partial configuration\<close>

text \<open>
  Claim C2, on the code. On a store with no permission rows, the administrator sets the
  permissions of MANAGER: the table then holds that one row, and in the running session
  SELLER still has its default set. The next start loads the one row into a map that
  starts empty: SELLER has no entry, and the lookup for Ana, a seller, finds no permission,
  not even \<^verbatim>\<open>VIEW_OWN_SALES\<close> of the default set. With an empty table the default map is
  used and she has it.
\<close>

theorem partial_configuration_blanks_other_roles:
  "snd (updateRolePermissions MANAGER [VIEW_ALL_SALES, APPROVE_SALES] (DEFAULT_PERMISSIONS, []))
     = [(MANAGER, [VIEW_ALL_SALES, APPROVE_SALES])]
   \<and> fst (updateRolePermissions MANAGER [VIEW_ALL_SALES, APPROVE_SALES]
             (DEFAULT_PERMISSIONS, [])) SELLER
       = DEFAULT_PERMISSIONS SELLER
   \<and> DEFAULT_PERMISSIONS SELLER = Some [VIEW_OWN_SALES, CREATE_SALES, VIEW_DASHBOARD]
   \<and> initApp_permissions (Some [(MANAGER, [VIEW_ALL_SALES, APPROVE_SALES])]) SELLER = None
   \<and> \<not> hasPermission
         (envOf ana (initApp_permissions (Some [(MANAGER, [VIEW_ALL_SALES, APPROVE_SALES])])))
         VIEW_OWN_SALES
   \<and> hasPermission (envOf ana (initApp_permissions (Some []))) VIEW_OWN_SALES"
  by (simp add: updateRolePermissions_def upsert_permissions_def DEFAULT_PERMISSIONS_def
                initApp_permissions_def hasPermission_def envOf_def ana_def)

subsection \<open>C3: edges outside the graph\<close>

text \<open>
  Claim C3, as stated, fails. IN\_PROGRESS to FINISHED is no edge of the graph, and the
  manager's change of the sale \<open>s1\<close> from IN\_PROGRESS to FINISHED succeeds and is
  written, in both versions of the page.
\<close>

theorem unlisted_edge_is_applied:
  "\<not> spec_edge IN_PROGRESS FINISHED
   \<and> status inProgressSale = IN_PROGRESS
   \<and> fst (handleUpdateStatus gerente ''t1'' True True ''s1'' FINISHED None
            (managerView [inProgressSale])) = Done
   \<and> map status (store (snd (handleUpdateStatus gerente ''t1'' True True ''s1'' FINISHED None
                               (managerView [inProgressSale])))) = [FINISHED]
   \<and> fst (handleUpdateStatusL gerente ''t1'' ''s1'' FINISHED None
            (managerViewL [inProgressSale])) = Done
   \<and> map (map_option (map status) \<circ> snd)
         (localStorage (snd (handleUpdateStatusL gerente ''t1'' ''s1'' FINISHED None
                               (managerViewL [inProgressSale]))))
       = [None, Some [FINISHED]]"
proof -
  have d: "fst (handleUpdateStatus gerente ''t1'' True True ''s1'' FINISHED None
                 (managerView [inProgressSale])) = Done"
    by (simp add: handleUpdateStatus_Done_iff gerente_approves managerView_def
                  inProgressSale_def saleOf_def isRegression_def)
  have dL: "fst (handleUpdateStatusL gerente ''t1'' ''s1'' FINISHED None
                  (managerViewL [inProgressSale])) = Done"
    by (simp add: handleUpdateStatusL_Done_iff gerente_approves managerViewL_def
                  inProgressSale_def saleOf_def isRegression_def readOwnerSales_def)
  have f: "find (\<lambda>s. sid s = ''s1'') (sales (managerView [inProgressSale])) = Some inProgressSale"
    by (simp add: managerView_def inProgressSale_def saleOf_def)
  have fL: "find (\<lambda>s. sid s = ''s1'') (salesL (managerViewL [inProgressSale])) = Some inProgressSale"
    by (simp add: managerViewL_def inProgressSale_def saleOf_def)
  have r: "readOwnerSales (localStorage (managerViewL [inProgressSale]))
             (''nexus_sales_'' @ sellerId inProgressSale) = Some [inProgressSale]"
    by (simp add: managerViewL_def inProgressSale_def saleOf_def readOwnerSales_def)
  have w: "map status (store (snd (handleUpdateStatus gerente ''t1'' True True ''s1'' FINISHED None
                               (managerView [inProgressSale])))) = [FINISHED]"
    unfolding handleUpdateStatus_written [OF d f]
    by (simp add: update_sales_Cons update_sales_Nil managerView_def inProgressSale_def saleOf_def)
  have wL: "map (map_option (map status) \<circ> snd)
         (localStorage (snd (handleUpdateStatusL gerente ''t1'' ''s1'' FINISHED None
                               (managerViewL [inProgressSale]))))
       = [None, Some [FINISHED]]"
    unfolding handleUpdateStatusL_written [OF dL fL r]
    by (simp add: managerViewL_def setItem_def inProgressSale_def saleOf_def)
  have e: "\<not> spec_edge IN_PROGRESS FINISHED"
    by (simp add: spec_edge_def)
  have s: "status inProgressSale = IN_PROGRESS"
    by (simp add: inProgressSale_def saleOf_def)
  from e s d w dL wL show ?thesis
    by (intro conjI)
qed

text \<open>
  Claim C3, amended. The handler looks at no edge. A status change succeeds exactly when
  the actor holds the approve permission, the sale is in the manager's list, the change is
  not a regression without a sufficient reason, and the store accepts the write; then
  every row of that id has the target status, whatever the status before. A change that
  does not succeed writes nothing.
\<close>

theorem status_change_checks_no_edge:
  "(fst (handleUpdateStatus env now updateOk loadOk i newStatus rsn st) = Done \<longleftrightarrow>
      hasPermission env APPROVE_SALES
      \<and> (\<exists>sale. find (\<lambda>s. sid s = i) (sales st) = Some sale
            \<and> \<not> (isRegression sale newStatus \<and> reasonMissing rsn))
      \<and> updateOk)
   \<and> (fst (handleUpdateStatus env now updateOk loadOk i newStatus rsn st) \<noteq> Done \<longrightarrow>
        store (snd (handleUpdateStatus env now updateOk loadOk i newStatus rsn st)) = store st)
   \<and> (fst (handleUpdateStatus env now updateOk loadOk i newStatus rsn st) = Done \<longrightarrow>
        (\<forall>r \<in> set (store (snd (handleUpdateStatus env now updateOk loadOk i newStatus rsn st))).
           sid r = i \<longrightarrow> status r = newStatus))
   \<and> (fst (handleUpdateStatusL env now i newStatus rsn stL) = Done \<longleftrightarrow>
        hasPermission env APPROVE_SALES
        \<and> (\<exists>sale. find (\<lambda>s. sid s = i) (salesL stL) = Some sale
              \<and> \<not> (isRegression sale newStatus \<and> reasonMissing rsn)
              \<and> readOwnerSales (localStorage stL) (''nexus_sales_'' @ sellerId sale) \<noteq> None))
   \<and> (fst (handleUpdateStatusL env now i newStatus rsn stL) \<noteq> Done \<longrightarrow>
        localStorage (snd (handleUpdateStatusL env now i newStatus rsn stL)) = localStorage stL)"
proof (intro conjI impI ballI)
  show "(fst (handleUpdateStatus env now updateOk loadOk i newStatus rsn st) = Done) =
     (hasPermission env APPROVE_SALES
      \<and> (\<exists>sale. find (\<lambda>s. sid s = i) (sales st) = Some sale
            \<and> \<not> (isRegression sale newStatus \<and> reasonMissing rsn))
      \<and> updateOk)"
    by (rule handleUpdateStatus_Done_iff)
next
  assume "fst (handleUpdateStatus env now updateOk loadOk i newStatus rsn st) \<noteq> Done"
  then show "store (snd (handleUpdateStatus env now updateOk loadOk i newStatus rsn st)) = store st"
    by (simp add: handleUpdateStatus_failed)
next
  fix r
  assume d: "fst (handleUpdateStatus env now updateOk loadOk i newStatus rsn st) = Done"
     and r: "r \<in> set (store (snd (handleUpdateStatus env now updateOk loadOk i newStatus rsn st)))"
     and i: "sid r = i"
  from d obtain sale where f: "find (\<lambda>s. sid s = i) (sales st) = Some sale"
    unfolding handleUpdateStatus_Done_iff by blast
  from handleUpdateStatus_rows [OF d f r i] show "status r = newStatus" by simp
next
  show "(fst (handleUpdateStatusL env now i newStatus rsn stL) = Done) =
        (hasPermission env APPROVE_SALES
        \<and> (\<exists>sale. find (\<lambda>s. sid s = i) (salesL stL) = Some sale
              \<and> \<not> (isRegression sale newStatus \<and> reasonMissing rsn)
              \<and> readOwnerSales (localStorage stL) (''nexus_sales_'' @ sellerId sale) \<noteq> None))"
    by (rule handleUpdateStatusL_Done_iff)
next
  assume "fst (handleUpdateStatusL env now i newStatus rsn stL) \<noteq> Done"
  then show "localStorage (snd (handleUpdateStatusL env now i newStatus rsn stL)) = localStorage stL"
    by (simp add: handleUpdateStatusL_failed)
qed

text \<open>
  FINISHED to ANALYZED, another pair outside the graph: applied when the store accepts
  the write, and nothing is written when it does not.
\<close>

theorem status_change_checks_no_edge_witness:
  "fst (handleUpdateStatus gerente ''t1'' True True ''s1'' ANALYZED None
          (managerView [finishedSale])) = Done
   \<and> map status (store (snd (handleUpdateStatus gerente ''t1'' True True ''s1'' ANALYZED None
                               (managerView [finishedSale])))) = [ANALYZED]
   \<and> store (snd (handleUpdateStatus gerente ''t1'' False True ''s1'' ANALYZED None
                   (managerView [finishedSale]))) = [finishedSale]"
proof -
  have f: "find (\<lambda>s. sid s = ''s1'') (sales (managerView [finishedSale])) = Some finishedSale"
    by (simp add: managerView_def finishedSale_def saleOf_def)
  have n: "\<not> isRegression finishedSale ANALYZED"
    by (simp add: isRegression_def)
  have s: "store (managerView [finishedSale]) = [finishedSale]"
    by (simp add: managerView_def)
  note a = status_change_checks_no_edge
            [of gerente "''t1''" True True "''s1''" ANALYZED None "managerView [finishedSale]"]
  note b = status_change_checks_no_edge
            [of gerente "''t1''" False True "''s1''" ANALYZED None "managerView [finishedSale]"]
  have d: "fst (handleUpdateStatus gerente ''t1'' True True ''s1'' ANALYZED None
          (managerView [finishedSale])) = Done"
    using a f n gerente_approves by simp
  have nd: "fst (handleUpdateStatus gerente ''t1'' False True ''s1'' ANALYZED None
          (managerView [finishedSale])) \<noteq> Done"
    using b by simp
  have i: "map sid (store (snd (handleUpdateStatus gerente ''t1'' True True ''s1'' ANALYZED None
                                 (managerView [finishedSale])))) = [''s1'']"
    unfolding handleUpdateStatus_written [OF d f] s
    by (simp add: update_sales_Cons update_sales_Nil finishedSale_def saleOf_def)
  have rows: "\<forall>r \<in> set (store (snd (handleUpdateStatus gerente ''t1'' True True ''s1'' ANALYZED None
                                 (managerView [finishedSale])))).
         sid r = ''s1'' \<longrightarrow> status r = ANALYZED"
    by (rule a [THEN conjunct2, THEN conjunct2, THEN conjunct1, THEN mp, OF d])
  have same: "store (snd (handleUpdateStatus gerente ''t1'' False True ''s1'' ANALYZED None
                   (managerView [finishedSale]))) = store (managerView [finishedSale])"
    by (rule b [THEN conjunct2, THEN conjunct1, THEN mp, OF nd])
  from d single_row [OF i, where f = status, OF rows] same show ?thesis
    unfolding s by (intro conjI)
qed

subsection \<open>C4: permissions\<close>

text \<open>
  Claim C4, as stated, fails on the edge from DRAFT to IN\_PROGRESS. Ana's role has no
  \<^verbatim>\<open>CREATE_SALES\<close>; she submits her draft \<open>d1\<close> with a valid form, and the row is written
  as IN\_PROGRESS.
\<close>

theorem submission_needs_no_create_permission:
  "\<not> hasPermission vendedora CREATE_SALES
   \<and> fst (handleCreateSale vendedora ana ''t1'' ''n1'' True True
            (sellerView [draftSale] (Some ''d1'') cliente)) = Done
   \<and> map status (store (sellerView [draftSale] (Some ''d1'') cliente)) = [DRAFT]
   \<and> map status (store (snd (handleCreateSale vendedora ana ''t1'' ''n1'' True True
                               (sellerView [draftSale] (Some ''d1'') cliente)))) = [IN_PROGRESS]"
proof -
  have p: "\<not> hasPermission vendedora CREATE_SALES"
    by (simp add: hasPermission_def vendedora_def envOf_def ana_def)
  have ro: "\<not> isReadOnly (sellerView [draftSale] (Some ''d1'') cliente)"
    by (simp add: isReadOnly_def sellerView_def draftSale_def saleOf_def)
  with cliente_valid [of "[draftSale]"]
  have v: "isFormValid vendedora (sellerView [draftSale] (Some ''d1'') cliente)"
    by simp
  from ro v
  have d: "fst (handleCreateSale vendedora ana ''t1'' ''n1'' True True
                 (sellerView [draftSale] (Some ''d1'') cliente)) = Done"
    by (simp add: handleCreateSale_Done_iff)
  have b: "map status (store (sellerView [draftSale] (Some ''d1'') cliente)) = [DRAFT]"
    by (simp add: sellerView_def draftSale_def saleOf_def)
  have a: "map status (store (snd (handleCreateSale vendedora ana ''t1'' ''n1'' True True
                               (sellerView [draftSale] (Some ''d1'') cliente)))) = [IN_PROGRESS]"
    unfolding handleCreateSale_written [OF d]
    by (simp add: upsert_sales_def submitPayload_def sellerView_def draftSale_def saleOf_def
                  rowOf_fields)
  from p d b a show ?thesis by (intro conjI)
qed

text \<open>
  Claim C4, amended. Every status change through the manager's handler (into ANALYZED or
  FINISHED, the regression, and any other target) by an actor without
  \<^verbatim>\<open>APPROVE_SALES\<close> takes the permission path: a warning and no write. Both versions of
  the manager page. The seller's submission checks no permission.
\<close>

theorem status_change_requires_approve:
  assumes "\<not> hasPermission env APPROVE_SALES"
  shows "handleUpdateStatus env now updateOk loadOk i newStatus rsn st
           = (PermissionDenied, notify PermissaoInsuficiente warning st)
         \<and> store (snd (handleUpdateStatus env now updateOk loadOk i newStatus rsn st)) = store st
         \<and> handleUpdateStatusL env now i newStatus rsn stL
             = (PermissionDenied,
                stL\<lparr>notificationsL := notificationsL stL @ [(PermissaoInsuficiente, warning)]\<rparr>)
         \<and> localStorage (snd (handleUpdateStatusL env now i newStatus rsn stL)) = localStorage stL"
  using assms
  by (simp add: handleUpdateStatus_denied handleUpdateStatusL_denied store_notify)

text \<open>Ana, under the default permissions, tries to finish a sale on the manager's page.\<close>

theorem status_change_requires_approve_witness:
  "handleUpdateStatus (envOf ana DEFAULT_PERMISSIONS) ''t1'' True True ''s1'' FINISHED None
       (managerView [inProgressSale])
     = (PermissionDenied, notify PermissaoInsuficiente warning (managerView [inProgressSale]))
   \<and> store (snd (handleUpdateStatus (envOf ana DEFAULT_PERMISSIONS) ''t1'' True True ''s1''
                   FINISHED None (managerView [inProgressSale]))) = [inProgressSale]"
proof -
  have n: "\<not> hasPermission (envOf ana DEFAULT_PERMISSIONS) APPROVE_SALES"
    by (simp add: hasPermission_def envOf_def ana_def DEFAULT_PERMISSIONS_def)
  have s: "store (managerView [inProgressSale]) = [inProgressSale]"
    by (simp add: managerView_def)
  note t = status_change_requires_approve
             [OF n, of "''t1''" True True "''s1''" FINISHED None "managerView [inProgressSale]"]
  from t [THEN conjunct1] t [THEN conjunct2, THEN conjunct1] show ?thesis
    unfolding s by (intro conjI)
qed

subsection \<open>C5: a regression needs a justification\<close>



subsection \<open>C6: the history grows by one entry\<close>




subsection \<open>C7: deleting a sale\<close>

text \<open>
  Claim C7, as stated, fails. Ana's list still shows \<open>d1\<close> as a draft, with its delete
  button, while the store holds it as IN\_PROGRESS since she submitted it in her other
  tab. She clicks the button and confirms: the deletion succeeds, and the row of the sale
  that is no draft is gone.
\<close>

theorem stale_draft_is_deleted:
  "deleteOffered staleList = [draftSale]
   \<and> map sid (store staleList) = [sid draftSale]
   \<and> map status (store staleList) = [IN_PROGRESS]
   \<and> fst (clickDelete (envOf ana DEFAULT_PERMISSIONS) ana True True True draftSale staleList)
       = Done
   \<and> store (snd (clickDelete (envOf ana DEFAULT_PERMISSIONS) ana True True True draftSale
                   staleList)) = []"
proof -
  have o: "deleteOffered staleList = [draftSale]"
    by (simp add: deleteOffered_def staleList_eval) (simp add: draftSale_def saleOf_def)
  have i: "map sid (store staleList) = [sid draftSale]"
    by (simp add: staleList_eval draftSale_def saleOf_def)
  have s: "map status (store staleList) = [IN_PROGRESS]"
    by (simp add: staleList_eval)
  have c: "clickDelete (envOf ana DEFAULT_PERMISSIONS) ana True True True draftSale staleList
             = handleDeleteDraft (envOf ana DEFAULT_PERMISSIONS) ana True True True ''d1''
                 staleList"
    by (simp add: clickDelete_def o) (simp add: draftSale_def saleOf_def)
  have d: "fst (clickDelete (envOf ana DEFAULT_PERMISSIONS) ana True True True draftSale
                  staleList) = Done"
    unfolding c by (simp add: handleDeleteDraft_def Let_def)
  from i have "filter (\<lambda>r. sid r \<noteq> ''d1'') (store staleList) = []"
    by (cases "store staleList") (auto simp: draftSale_def saleOf_def)
  then have e: "store (snd (clickDelete (envOf ana DEFAULT_PERMISSIONS) ana True True True
                              draftSale staleList)) = []"
    unfolding c by (simp add: handleDeleteDraft_def Let_def store_notify store_loadData)
  from o i s d e show ?thesis by (intro conjI)
qed

text \<open>
  Claim C7, amended. A deletion succeeds exactly when the sale is in the seller's list and
  a draft there (only then is there a button to click), the seller confirms and the store
  accepts; it then removes the rows of that id, whatever status the store holds for them.
  Otherwise nothing is removed and the page is as before; the outcome is then the store's
  error or none at all, never a permission or state error. The list, once loaded, holds
  only the seller's own sales.
\<close>

theorem delete_only_through_draft_button:
  "(fst (clickDelete env user confirmed deleteOk loadOk sale st) = Done \<longleftrightarrow>
      sale \<in> set (sales st) \<and> status sale = DRAFT \<and> confirmed \<and> deleteOk)
   \<and> (fst (clickDelete env user confirmed deleteOk loadOk sale st) = Done \<longrightarrow>
        store (snd (clickDelete env user confirmed deleteOk loadOk sale st))
          = filter (\<lambda>r. sid r \<noteq> sid sale) (store st))
   \<and> (fst (clickDelete env user confirmed deleteOk loadOk sale st) \<noteq> Done \<longrightarrow>
        clickDelete env user confirmed deleteOk loadOk sale st
          = (if sale \<in> set (deleteOffered st) \<and> confirmed then StoreError else Ignored, st))
   \<and> (\<forall>s \<in> set (sales (loadData env user True st)). sellerId s = user_id user)"
proof (intro conjI impI ballI)
  show "(fst (clickDelete env user confirmed deleteOk loadOk sale st) = Done) =
          (sale \<in> set (sales st) \<and> status sale = DRAFT \<and> confirmed \<and> deleteOk)"
    by (auto simp: clickDelete_def handleDeleteDraft_def deleteOffered_def Let_def)
next
  assume "fst (clickDelete env user confirmed deleteOk loadOk sale st) = Done"
  then show "store (snd (clickDelete env user confirmed deleteOk loadOk sale st))
          = filter (\<lambda>r. sid r \<noteq> sid sale) (store st)"
    by (simp add: clickDelete_def handleDeleteDraft_def Let_def store_notify store_loadData
             split: if_splits)
next
  assume "fst (clickDelete env user confirmed deleteOk loadOk sale st) \<noteq> Done"
  then show "clickDelete env user confirmed deleteOk loadOk sale st
          = (if sale \<in> set (deleteOffered st) \<and> confirmed then StoreError else Ignored, st)"
    by (simp add: clickDelete_def handleDeleteDraft_def Let_def split: if_splits)
next
  fix s assume "s \<in> set (sales (loadData env user True st))"
  then show "sellerId s = user_id user"
    by (simp add: loadData_def Let_def set_newestFirst)
qed

text \<open>
  Ana's list with a draft and a returned sale: she deletes the draft; the returned sale
  has no button; and she declines the confirmation for the draft.
\<close>

theorem delete_only_through_draft_button_witness:
  "store (snd (clickDelete vendedora ana True True True draftSale
                 (sellerView [draftSale, returnedSale] None initialCustomerData)))
     = [returnedSale]
   \<and> clickDelete vendedora ana True True True returnedSale
         (sellerView [draftSale, returnedSale] None initialCustomerData)
       = (Ignored, sellerView [draftSale, returnedSale] None initialCustomerData)
   \<and> clickDelete vendedora ana False True True draftSale
         (sellerView [draftSale, returnedSale] None initialCustomerData)
       = (Ignored, sellerView [draftSale, returnedSale] None initialCustomerData)"
proof -
  let ?v = "sellerView [draftSale, returnedSale] None initialCustomerData"
  have l: "draftSale \<in> set (sales ?v)" by (simp add: sellerView_def)
  have dr: "status draftSale = DRAFT" by (simp add: draftSale_def saleOf_def)
  have nr: "status returnedSale \<noteq> DRAFT" by (simp add: returnedSale_def saleOf_def)
  have o: "returnedSale \<notin> set (deleteOffered ?v)"
    by (simp add: deleteOffered_def nr)
  have f: "filter (\<lambda>r. sid r \<noteq> sid draftSale) (store ?v) = [returnedSale]"
    by (simp add: sellerView_def draftSale_def returnedSale_def saleOf_def)
  note a = delete_only_through_draft_button [of vendedora ana True True True draftSale ?v]
  note b = delete_only_through_draft_button [of vendedora ana True True True returnedSale ?v]
  note c = delete_only_through_draft_button [of vendedora ana False True True draftSale ?v]
  from a [THEN conjunct1] l dr
  have d: "fst (clickDelete vendedora ana True True True draftSale ?v) = Done" by simp
  from a [THEN conjunct2, THEN conjunct1, THEN mp, OF d]
  have 1: "store (snd (clickDelete vendedora ana True True True draftSale ?v)) = [returnedSale]"
    unfolding f .
  from b [THEN conjunct1] nr
  have "fst (clickDelete vendedora ana True True True returnedSale ?v) \<noteq> Done" by simp
  from b [THEN conjunct2, THEN conjunct2, THEN conjunct1, THEN mp, OF this] o
  have 2: "clickDelete vendedora ana True True True returnedSale ?v = (Ignored, ?v)" by simp
  from c [THEN conjunct1]
  have "fst (clickDelete vendedora ana False True True draftSale ?v) \<noteq> Done" by simp
  from c [THEN conjunct2, THEN conjunct2, THEN conjunct1, THEN mp, OF this]
  have 3: "clickDelete vendedora ana False True True draftSale ?v = (Ignored, ?v)" by simp
  from 1 2 3 show ?thesis by (intro conjI)
qed

subsection \<open>C8: the autosave resets the history\<close>

text \<open>
  Claim C8. Whenever the autosave writes (the form is open on a sale that is not
  read-only, \<^verbatim>\<open>nome\<close> or \<^verbatim>\<open>cpf\<close> is filled in, and the store accepts the upsert), the
  payload has status DRAFT and a history of exactly one DRAFT entry; every row written is
  in the table afterwards with that status and that history, and a row that was in the
  table under the payload's id now has them in its place, whatever its history was.
\<close>

theorem autosave_writes_single_entry_draft:
  assumes m: "showModal st" and ro: "\<not> isReadOnly st"
      and n: "nome (formData st) \<noteq> [] \<or> cpf (formData st) \<noteq> []"
      and ok: "ok"
  shows "store (autosave user now freshId ok st)
           = fst (upsert_sales freshId (autosavePayload user now st) (store st))
     \<and> p_status (autosavePayload user now st) = DRAFT
     \<and> p_status_history (autosavePayload user now st)
         = [\<lparr>h_status = DRAFT, updatedBy = user_name user, updatedAt = now, reason = None\<rparr>]
     \<and> snd (upsert_sales freshId (autosavePayload user now st) (store st)) \<noteq> []
     \<and> (\<forall>r \<in> set (snd (upsert_sales freshId (autosavePayload user now st) (store st))).
           r \<in> set (store (autosave user now freshId ok st))
           \<and> status r = DRAFT
           \<and> statusHistory r =
               Some [\<lparr>h_status = DRAFT, updatedBy = user_name user, updatedAt = now,
                      reason = None\<rparr>])
     \<and> (\<forall>k < length (store st).
           p_id (autosavePayload user now st) = Some (sid (store st ! k)) \<longrightarrow>
             status (store (autosave user now freshId ok st) ! k) = DRAFT
             \<and> statusHistory (store (autosave user now freshId ok st) ! k) =
                 Some [\<lparr>h_status = DRAFT, updatedBy = user_name user, updatedAt = now,
                        reason = None\<rparr>])"
proof (intro conjI impI allI ballI)
  from m ro n ok
  show s: "store (autosave user now freshId ok st)
           = fst (upsert_sales freshId (autosavePayload user now st) (store st))"
    by (simp add: autosave_store)
  show "p_status (autosavePayload user now st) = DRAFT"
    by (simp add: autosavePayload_def)
  show "p_status_history (autosavePayload user now st)
         = [\<lparr>h_status = DRAFT, updatedBy = user_name user, updatedAt = now, reason = None\<rparr>]"
    by (simp add: autosavePayload_def)
  show "snd (upsert_sales freshId (autosavePayload user now st) (store st)) \<noteq> []"
    by (rule upsert_sales_nonempty)
  {
    fix r
    assume "r \<in> set (snd (upsert_sales freshId (autosavePayload user now st) (store st)))"
    from upsert_sales_written [OF this] obtain i old
      where mem: "r \<in> set (fst (upsert_sales freshId (autosavePayload user now st) (store st)))"
        and row: "r = rowOf (autosavePayload user now st) i old"
      by blast
    from mem show "r \<in> set (store (autosave user now freshId ok st))"
      unfolding s .
    show "status r = DRAFT"
      unfolding row by (simp add: rowOf_fields autosavePayload_def)
    show "statusHistory r =
            Some [\<lparr>h_status = DRAFT, updatedBy = user_name user, updatedAt = now,
                   reason = None\<rparr>]"
      unfolding row by (simp add: rowOf_fields autosavePayload_def)
  }
  {
    fix k
    assume k: "k < length (store st)"
       and p: "p_id (autosavePayload user now st) = Some (sid (store st ! k))"
    from k p show "status (store (autosave user now freshId ok st) ! k) = DRAFT"
      unfolding s by (simp add: upsert_sales_nth rowOf_fields) (simp add: autosavePayload_def)
    from k p
    show "statusHistory (store (autosave user now freshId ok st) ! k) =
            Some [\<lparr>h_status = DRAFT, updatedBy = user_name user, updatedAt = now,
                   reason = None\<rparr>]"
      unfolding s by (simp add: upsert_sales_nth rowOf_fields) (simp add: autosavePayload_def)
  }
qed

text \<open>A draft row with two entries in its history has one after the autosave.\<close>

theorem autosave_writes_single_entry_draft_witness:
  "map (\<lambda>r. length (orEmpty (statusHistory r)))
       (store (sellerView [longDraft] (Some ''d1'') cliente)) = [2]
   \<and> store (autosave ana ''2024-03-01'' ''n1'' True (sellerView [longDraft] (Some ''d1'') cliente))
       = [(saleOf ''d1'' DRAFT
             [\<lparr>h_status = DRAFT, updatedBy = ''Ana Vendedora'', updatedAt = ''2024-03-01'',
               reason = None\<rparr>] None)
            \<lparr>createdAt := ''2024-03-01''\<rparr>]"
proof -
  let ?v = "sellerView [longDraft] (Some ''d1'') cliente"
  have m: "showModal ?v" by (simp add: sellerView_def)
  have ro: "\<not> isReadOnly ?v"
    by (simp add: isReadOnly_def sellerView_def longDraft_def saleOf_def)
  have n: "nome (formData ?v) \<noteq> [] \<or> cpf (formData ?v) \<noteq> []"
    by (simp add: sellerView_def cliente_def)
  have b: "map (\<lambda>r. length (orEmpty (statusHistory r))) (store ?v) = [2]"
    by (simp add: sellerView_def longDraft_def saleOf_def orEmpty_def)
  note t = autosave_writes_single_entry_draft [OF m ro n TrueI, of ana "''2024-03-01''" "''n1''"]
  have "store (autosave ana ''2024-03-01'' ''n1'' True ?v)
       = [(saleOf ''d1'' DRAFT
             [\<lparr>h_status = DRAFT, updatedBy = ''Ana Vendedora'', updatedAt = ''2024-03-01'',
               reason = None\<rparr>] None)
            \<lparr>createdAt := ''2024-03-01''\<rparr>]"
    unfolding t [THEN conjunct1]
    by (simp add: upsert_sales_def autosavePayload_def sellerView_def longDraft_def saleOf_def
                  rowOf_def ana_def)
  with b show ?thesis by (intro conjI)
qed

subsection \<open>C9: regression alerts and the seen-set\<close>

text \<open>
  Claim C9, on the code. A load never takes an id out of the set of notified regressions,
  and a second load on the same mount raises no second alert for the returned sale
  \<open>s1\<close>. But the alert is a \<^verbatim>\<open>notify\<close>, which renders \<^verbatim>\<open>App\<close> again and so mounts the
  page again with an empty set; the mount effect loads and raises the alert again, and so
  on: after \<open>n\<close> renders that follow the first mount, the alert for \<open>s1\<close> has been raised
  \<open>n + 1\<close> times.
\<close>

theorem remount_repeats_regression_alert:
  "notifiedRegressions st \<subseteq> notifiedRegressions (loadAllSalesL env st)
   \<and> alertsFor ''s1''
         (notificationsL (loadAllSalesL gerente (mountL gerente returnedStorage []))) = 1
   \<and> alertsFor ''s1'' (notificationsL (rendersL gerente n (mountL gerente returnedStorage [])))
       = Suc n"
proof (intro conjI)
  show "notifiedRegressions st \<subseteq> notifiedRegressions (loadAllSalesL env st)"
    by (rule loadAllSalesL_seen)
  show "alertsFor ''s1''
          (notificationsL (loadAllSalesL gerente (mountL gerente returnedStorage []))) = 1"
    by (simp add: reload_returned alertsFor_def)
  show "alertsFor ''s1'' (notificationsL (rendersL gerente n (mountL gerente returnedStorage [])))
          = Suc n"
    by (simp add: rendersL_returned) (simp add: alertsFor_def)
qed

subsection \<open>C10: resubmission by the seller\<close>

text \<open>
  Claim C10. A seller submits, with a valid form, a sale that is in the list, has a
  creation time and is not read-only, and the store accepts the upsert: the submission
  succeeds, the table has a row of that id, and every such row has status IN\_PROGRESS, no
  return reason, the history the list showed with one IN\_PROGRESS entry appended, and the
  creation time of the sale. No other write clears a return reason: a successful status
  change by the manager on a sale that has one leaves every row of that id with one, and
  the autosave leaves the return reason of every row as it was.
\<close>

theorem resubmission_writes_in_progress:
  assumes e: "editingSaleId st = Some e"
      and ex: "existingSale st = Some sale"
      and c: "createdAt sale \<noteq> []"
      and ro: "\<not> isReadOnly st"
      and v: "isFormValid env st"
      and ok: "upsertOk"
  shows "fst (handleCreateSale env user now freshId upsertOk loadOk st) = Done
     \<and> (\<exists>r \<in> set (store (snd (handleCreateSale env user now freshId upsertOk loadOk st))).
           sid r = e)
     \<and> (\<forall>r \<in> set (store (snd (handleCreateSale env user now freshId upsertOk loadOk st))).
           sid r = e \<longrightarrow>
             status r = IN_PROGRESS
             \<and> returnReason r = None
             \<and> statusHistory r =
                 Some (orEmpty (statusHistory sale)
                       @ [\<lparr>h_status = IN_PROGRESS, updatedBy = user_name user,
                           updatedAt = now, reason = None\<rparr>])
             \<and> createdAt r = createdAt sale)
     \<and> (fst (handleUpdateStatus envM nowM updateOk loadOkM i newStatus rsn stM) = Done \<longrightarrow>
          find (\<lambda>s. sid s = i) (sales stM) = Some saleM \<longrightarrow> returnReason saleM \<noteq> None \<longrightarrow>
            (\<forall>r \<in> set (store (snd (handleUpdateStatus envM nowM updateOk loadOkM i newStatus
                                       rsn stM))).
               sid r = i \<longrightarrow> returnReason r \<noteq> None))
     \<and> (\<forall>k < length (store stA).
           returnReason (store (autosave userA nowA freshA okA stA) ! k)
             = returnReason (store stA ! k))"
proof (intro conjI impI allI ballI)
  from ro v ok
  show d: "fst (handleCreateSale env user now freshId upsertOk loadOk st) = Done"
    by (simp add: handleCreateSale_Done_iff)
  from e have p: "p_id (submitPayload user now st) = Some e"
    by (simp add: submitPayload_def)
  from upsert_sales_id_exists [OF p]
  show "\<exists>r \<in> set (store (snd (handleCreateSale env user now freshId upsertOk loadOk st))).
          sid r = e"
    unfolding handleCreateSale_written [OF d] .
  {
    fix r
    assume r: "r \<in> set (store (snd (handleCreateSale env user now freshId upsertOk loadOk st)))"
       and i: "sid r = e"
    from r have "r \<in> set (fst (upsert_sales freshId (submitPayload user now st) (store st)))"
      unfolding handleCreateSale_written [OF d] .
    from upsert_sales_id [OF p this i] obtain old
      where row: "r = rowOf (submitPayload user now st) e old" ..
    show "status r = IN_PROGRESS"
      unfolding row by (simp add: rowOf_fields submitPayload_def)
    show "returnReason r = None"
      unfolding row by (simp add: rowOf_fields submitPayload_def)
    show "statusHistory r =
            Some (orEmpty (statusHistory sale)
                  @ [\<lparr>h_status = IN_PROGRESS, updatedBy = user_name user,
                      updatedAt = now, reason = None\<rparr>])"
      unfolding row using ex by (simp add: rowOf_fields submitPayload_def)
    show "createdAt r = createdAt sale"
      unfolding row using ex c by (simp add: rowOf_fields submitPayload_def)
  }
next
  fix r
  assume a: "fst (handleUpdateStatus envM nowM updateOk loadOkM i newStatus rsn stM) = Done"
     "find (\<lambda>s. sid s = i) (sales stM) = Some saleM"
     and n: "returnReason saleM \<noteq> None"
     and b: "r \<in> set (store (snd (handleUpdateStatus envM nowM updateOk loadOkM i newStatus
                                       rsn stM)))" "sid r = i"
  from a have m: "isRegression saleM newStatus \<longrightarrow> \<not> reasonMissing rsn"
    by (simp add: handleUpdateStatus_Done_iff)
  have "reasonMissing None" by (simp add: reasonMissing_def)
  with m have "isRegression saleM newStatus \<longrightarrow> rsn \<noteq> None" by (cases rsn) simp_all
  with handleUpdateStatus_rows [OF a b] n show "returnReason r \<noteq> None"
    by (simp split: if_splits)
next
  fix k
  assume "k < length (store stA)"
  then show "returnReason (store (autosave userA nowA freshA okA stA) ! k)
               = returnReason (store stA ! k)"
    by (simp add: autosave_store upsert_sales_nth rowOf_fields autosavePayload_def)
qed

text \<open>Ana resubmits the sale that Carlos sent back.\<close>

theorem resubmission_writes_in_progress_witness:
  "fst (handleCreateSale vendedora ana ''2024-03-01'' ''n1'' True True
          (sellerView [returnedSale] (Some ''s1'') cliente)) = Done
   \<and> map returnReason (store (sellerView [returnedSale] (Some ''s1'') cliente))
       = [Some ''documento ilegivel'']
   \<and> map (\<lambda>r. (status r, returnReason r, createdAt r))
         (store (snd (handleCreateSale vendedora ana ''2024-03-01'' ''n1'' True True
                        (sellerView [returnedSale] (Some ''s1'') cliente))))
       = [(IN_PROGRESS, None, ''2024-01-01'')]"
proof -
  let ?v = "sellerView [returnedSale] (Some ''s1'') cliente"
  have e: "editingSaleId ?v = Some ''s1''"
    by (simp add: sellerView_def)
  have ex: "existingSale ?v = Some returnedSale"
    by (simp add: existingSale_def sellerView_def returnedSale_def saleOf_def)
  have c: "createdAt returnedSale \<noteq> []"
    by (simp add: returnedSale_def saleOf_def)
  have ro: "\<not> isReadOnly ?v"
    by (simp add: isReadOnly_def sellerView_def returnedSale_def saleOf_def)
  with cliente_valid_any [of ana "[SELLER \<mapsto> [VIEW_OWN_SALES]]" "[returnedSale]" "Some ''s1''"]
  have v: "isFormValid vendedora ?v"
    by (simp add: vendedora_def)
  note t = resubmission_writes_in_progress
             [OF e ex c ro v TrueI, of ana "''2024-03-01''" "''n1''" True]
  note d = t [THEN conjunct1]
  have before: "map returnReason (store ?v) = [Some ''documento ilegivel'']"
    by (simp add: sellerView_def returnedSale_def saleOf_def)
  have i: "map sid (store (snd (handleCreateSale vendedora ana ''2024-03-01'' ''n1'' True True
                                  ?v))) = [''s1'']"
    unfolding handleCreateSale_written [OF d]
    by (simp add: upsert_sales_def submitPayload_def sellerView_def returnedSale_def saleOf_def
                  sid_rowOf)
  from t [THEN conjunct2, THEN conjunct2, THEN conjunct1]
  have "\<forall>r \<in> set (store (snd (handleCreateSale vendedora ana ''2024-03-01'' ''n1'' True True
                                  ?v))).
          sid r = ''s1'' \<longrightarrow>
            (status r, returnReason r, createdAt r)
              = (IN_PROGRESS, None, createdAt returnedSale)"
    by simp
  from single_row [OF i, where f = "\<lambda>r. (status r, returnReason r, createdAt r)", OF this]
  have after: "map (\<lambda>r. (status r, returnReason r, createdAt r))
         (store (snd (handleCreateSale vendedora ana ''2024-03-01'' ''n1'' True True ?v)))
       = [(IN_PROGRESS, None, ''2024-01-01'')]"
    by (simp add: returnedSale_def saleOf_def)
  from d before after show ?thesis by (intro conjI)
qed

end
